theory Spec2Isabelle
  imports Complex_Main "HOL-Library.Multiset"
begin

section \<open>The store, as the services see it\<close>

text \<open>
  The services of \<^verbatim>\<open>src/database/services\<close> are thin wrappers around the query
  client: every exported function issues one query (the paginated listings issue two).
  A table is the list of its rows in storage order. A \<^verbatim>\<open>Date\<close> is its number of
  milliseconds since the epoch, which is what JavaScript compares with \<^verbatim>\<open><\<close> and
  \<^verbatim>\<open>>\<close>. Each \<^verbatim>\<open>new Date()\<close> a function evaluates is its argument \<open>now\<close>; no
  function of the services evaluates more than one per call.
\<close>

type_synonym timestamp = int

datatype prisma_error =
    RecordNotFound
  | UniqueConstraintViolation
  | ForeignKeyViolation
  | ValidationError

text \<open>\<^verbatim>\<open>findUnique({ where })\<close> on a unique column: the matching row, or null.\<close>

definition findUnique :: "('r \<Rightarrow> bool) \<Rightarrow> 'r list \<Rightarrow> 'r option" where
  "findUnique P rows = find P rows"

text \<open>
  \<^verbatim>\<open>update({ where, data })\<close> on a unique column: throws when no row matches,
  otherwise rewrites the row and returns it.
\<close>

definition prisma_update ::
  "('r \<Rightarrow> bool) \<Rightarrow> ('r \<Rightarrow> 'r) \<Rightarrow> 'r list \<Rightarrow> prisma_error + ('r \<times> 'r list)" where
  "prisma_update P f rows =
     (case find P rows of
        None \<Rightarrow> Inl RecordNotFound
      | Some r \<Rightarrow> Inr (f r, map (\<lambda>x. if P x then f x else x) rows))"

text \<open>\<^verbatim>\<open>delete({ where })\<close> on a unique column: throws when no row matches.\<close>

definition prisma_delete ::
  "('r \<Rightarrow> bool) \<Rightarrow> 'r list \<Rightarrow> prisma_error + ('r \<times> 'r list)" where
  "prisma_delete P rows =
     (case find P rows of
        None \<Rightarrow> Inl RecordNotFound
      | Some r \<Rightarrow> Inr (r, filter (\<lambda>x. \<not> P x) rows))"

text \<open>
  \<^verbatim>\<open>updateMany\<close> and \<^verbatim>\<open>deleteMany\<close> never throw on an empty match; they return
  \<^verbatim>\<open>{ count }\<close>, the number of rows the \<^verbatim>\<open>where\<close> clause matched, and the new table.
\<close>

definition updateMany :: "('r \<Rightarrow> bool) \<Rightarrow> ('r \<Rightarrow> 'r) \<Rightarrow> 'r list \<Rightarrow> nat \<times> 'r list" where
  "updateMany P f rows = (length (filter P rows), map (\<lambda>x. if P x then f x else x) rows)"

definition deleteMany :: "('r \<Rightarrow> bool) \<Rightarrow> 'r list \<Rightarrow> nat \<times> 'r list" where
  "deleteMany P rows = (length (filter P rows), filter (\<lambda>x. \<not> P x) rows)"

definition prisma_count :: "('r \<Rightarrow> bool) \<Rightarrow> 'r list \<Rightarrow> nat" where
  "prisma_count P rows = length (filter P rows)"

text \<open>
  \<^verbatim>\<open>orderBy: { key: 'desc' }\<close>. The store leaves the order of rows with equal keys
  open; the model keeps them in storage order (the sort is stable). No theorem below
  depends on that choice.
\<close>

definition orderByDesc :: "('r \<Rightarrow> timestamp) \<Rightarrow> 'r list \<Rightarrow> 'r list" where
  "orderByDesc key rows = sort_key (\<lambda>r. - key r) rows"

definition findMany :: "('r \<Rightarrow> bool) \<Rightarrow> ('r \<Rightarrow> timestamp) \<Rightarrow> 'r list \<Rightarrow> 'r list" where
  "findMany P key rows = orderByDesc key (filter P rows)"

text \<open>
  The numbers of the listings are JavaScript numbers that hold integers. A double
  holds every integer up to \<open>2^53\<close> in magnitude; beyond that the result of an
  arithmetic operation is rounded to the nearest double, ties to the even one: of a
  number of more than 53 bits the leading 53 are kept.
\<close>

function bit_length :: "int \<Rightarrow> nat" where
  "bit_length n = (if n \<le> 0 then 0 else Suc (bit_length (n div 2)))"
  by pat_completeness auto
termination
  by (relation "measure nat") auto

declare bit_length.simps [simp del]

definition to_double :: "int \<Rightarrow> int" where
  "to_double n =
     (if \<bar>n\<bar> \<le> 2 ^ 53 then n
      else
        (let u = 2 ^ (bit_length \<bar>n\<bar> - 53);
             q = \<bar>n\<bar> div u;
             r = \<bar>n\<bar> mod u;
             q' = (if u < 2 * r \<or> (2 * r = u \<and> odd q) then q + 1 else q)
         in sgn n * (q' * u)))"

text \<open>
  \<^verbatim>\<open>skip\<close> and \<^verbatim>\<open>take\<close> reach the client as integers of fixed width. The client
  rejects a value that does not fit a signed 64-bit integer, and of one that fits it
  keeps the low 32 bits (a \<^verbatim>\<open>take\<close> of \<open>2^32\<close> takes no row). A value below \<open>2^31\<close>
  is passed as it is.
\<close>

definition fits_int64 :: "int \<Rightarrow> bool" where
  "fits_int64 n = (- (2 ^ 63) \<le> n \<and> n < 2 ^ 63)"

definition narrow32 :: "int \<Rightarrow> nat" where
  "narrow32 n = nat (n mod 2 ^ 32)"

text \<open>
  \<^verbatim>\<open>findMany({ where, skip, take, orderBy })\<close>: a \<^verbatim>\<open>skip\<close> or \<^verbatim>\<open>take\<close> out of
  the 64-bit range is rejected by the client, and so is a negative \<^verbatim>\<open>skip\<close>; a
  negative \<^verbatim>\<open>take\<close> takes from the end of the ordered rows.
\<close>

definition findManyPage ::
  "('r \<Rightarrow> bool) \<Rightarrow> ('r \<Rightarrow> timestamp) \<Rightarrow> int \<Rightarrow> int \<Rightarrow> 'r list \<Rightarrow> prisma_error + 'r list" where
  "findManyPage P key skip tk rows =
     (let xs = orderByDesc key (filter P rows) in
      if fits_int64 skip \<and> fits_int64 tk then
        (if skip < 0 then Inl ValidationError
         else if 0 \<le> tk then Inr (take (narrow32 tk) (drop (narrow32 skip) xs))
         else Inr (rev (take (narrow32 (- tk)) (drop (narrow32 skip) (rev xs)))))
      else Inl ValidationError)"

text \<open>
  The value of \<^verbatim>\<open>Math.ceil(total / limit)\<close> for a row count \<open>total\<close> and an integer
  \<open>limit\<close>. Row counts are far below \<open>2^53\<close>, where the quotient of two doubles
  rounds to no integer it does not reach, so the ceiling is the exact one; a zero
  \<open>limit\<close> gives \<^verbatim>\<open>Infinity\<close>, or \<^verbatim>\<open>NaN\<close> for \<^verbatim>\<open>0 / 0\<close>.
\<close>

datatype js_number = Num int | PosInfinity | NaN

definition math_ceil_div :: "nat \<Rightarrow> int \<Rightarrow> js_number" where
  "math_ceil_div tot limit =
     (if limit = 0 then (if tot = 0 then NaN else PosInfinity)
      else Num \<lceil>real tot / real_of_int limit\<rceil>)"

record pagination =
  pg_page :: int
  pg_limit :: int
  pg_total :: nat
  pg_pages :: js_number

section \<open>Password reset tokens (\<^verbatim>\<open>password-reset.service.ts\<close>)\<close>

record PasswordResetToken =
  prt_id :: string
  prt_token :: string
  prt_userId :: string
  prt_expiresAt :: timestamp
  prt_isUsed :: bool
  prt_createdAt :: timestamp

record CreatePasswordResetTokenData =
  cprt_token :: string
  cprt_userId :: string
  cprt_expiresAt :: timestamp

record UpdatePasswordResetTokenData =
  uprt_isUsed :: "bool option"
  uprt_expiresAt :: "timestamp option"

record prt_filters =
  pf_userId :: "string option"
  pf_isUsed :: "bool option"
  pf_isExpired :: "bool option"

text \<open>The primary key and the unique token column.\<close>

definition prt_wf :: "PasswordResetToken list \<Rightarrow> bool" where
  "prt_wf rows = (distinct (map prt_id rows) \<and> distinct (map prt_token rows))"

text \<open>
  Modelled from the spec: the schema of the table is not among the sources. The
  spec gives every entity an opaque unique identifier and a creation timestamp, a
  unique \<open>token\<close>, a used flag that a fresh token does not carry, and an owning user
  whose existence the store's referential constraint enforces. \<open>users\<close> are the ids
  of the existing users, \<open>newId\<close> the identifier the store generates.
\<close>

definition createPasswordResetToken ::
  "string list \<Rightarrow> string \<Rightarrow> timestamp \<Rightarrow> CreatePasswordResetTokenData \<Rightarrow>
   PasswordResetToken list \<Rightarrow> prisma_error + (PasswordResetToken \<times> PasswordResetToken list)" where
  "createPasswordResetToken users newId now data rows =
     (if cprt_userId data \<notin> set users then Inl ForeignKeyViolation
      else if newId \<in> set (map prt_id rows) \<or> cprt_token data \<in> set (map prt_token rows)
        then Inl UniqueConstraintViolation
      else
        (let r = \<lparr>prt_id = newId, prt_token = cprt_token data, prt_userId = cprt_userId data,
                  prt_expiresAt = cprt_expiresAt data, prt_isUsed = False, prt_createdAt = now\<rparr>
         in Inr (r, rows @ [r])))"

definition findPasswordResetTokenByToken ::
  "string \<Rightarrow> PasswordResetToken list \<Rightarrow> PasswordResetToken option" where
  "findPasswordResetTokenByToken token rows = findUnique (\<lambda>r. prt_token r = token) rows"

definition findPasswordResetTokenById ::
  "string \<Rightarrow> PasswordResetToken list \<Rightarrow> PasswordResetToken option" where
  "findPasswordResetTokenById i rows = findUnique (\<lambda>r. prt_id r = i) rows"

text \<open>An absent field of \<^verbatim>\<open>data\<close> leaves the column as it is.\<close>

definition prt_apply :: "UpdatePasswordResetTokenData \<Rightarrow> PasswordResetToken \<Rightarrow> PasswordResetToken" where
  "prt_apply data r =
     (let r1 = (case uprt_isUsed data of None \<Rightarrow> r | Some b \<Rightarrow> r\<lparr>prt_isUsed := b\<rparr>)
      in (case uprt_expiresAt data of None \<Rightarrow> r1 | Some e \<Rightarrow> r1\<lparr>prt_expiresAt := e\<rparr>))"

definition updatePasswordResetToken ::
  "string \<Rightarrow> UpdatePasswordResetTokenData \<Rightarrow> PasswordResetToken list \<Rightarrow>
   prisma_error + (PasswordResetToken \<times> PasswordResetToken list)" where
  "updatePasswordResetToken i data rows = prisma_update (\<lambda>r. prt_id r = i) (prt_apply data) rows"

definition markPasswordResetTokenAsUsed ::
  "string \<Rightarrow> PasswordResetToken list \<Rightarrow> prisma_error + (PasswordResetToken \<times> PasswordResetToken list)" where
  "markPasswordResetTokenAsUsed i rows =
     prisma_update (\<lambda>r. prt_id r = i) (\<lambda>r. r\<lparr>prt_isUsed := True\<rparr>) rows"

definition markPasswordResetTokenAsUsedByToken ::
  "string \<Rightarrow> PasswordResetToken list \<Rightarrow> prisma_error + (PasswordResetToken \<times> PasswordResetToken list)" where
  "markPasswordResetTokenAsUsedByToken token rows =
     prisma_update (\<lambda>r. prt_token r = token) (\<lambda>r. r\<lparr>prt_isUsed := True\<rparr>) rows"

definition getUserPasswordResetTokens ::
  "string \<Rightarrow> PasswordResetToken list \<Rightarrow> PasswordResetToken list" where
  "getUserPasswordResetTokens userId rows = findMany (\<lambda>r. prt_userId r = userId) prt_createdAt rows"

definition getActiveUserPasswordResetTokens ::
  "timestamp \<Rightarrow> string \<Rightarrow> PasswordResetToken list \<Rightarrow> PasswordResetToken list" where
  "getActiveUserPasswordResetTokens now userId rows =
     findMany (\<lambda>r. prt_userId r = userId \<and> prt_isUsed r = False \<and> prt_expiresAt r > now)
       prt_createdAt rows"

definition deletePasswordResetToken ::
  "string \<Rightarrow> PasswordResetToken list \<Rightarrow> prisma_error + (PasswordResetToken \<times> PasswordResetToken list)" where
  "deletePasswordResetToken i rows = prisma_delete (\<lambda>r. prt_id r = i) rows"

definition deletePasswordResetTokenByToken ::
  "string \<Rightarrow> PasswordResetToken list \<Rightarrow> prisma_error + (PasswordResetToken \<times> PasswordResetToken list)" where
  "deletePasswordResetTokenByToken token rows = prisma_delete (\<lambda>r. prt_token r = token) rows"

definition deleteAllUserPasswordResetTokens ::
  "string \<Rightarrow> PasswordResetToken list \<Rightarrow> nat \<times> PasswordResetToken list" where
  "deleteAllUserPasswordResetTokens userId rows = deleteMany (\<lambda>r. prt_userId r = userId) rows"

definition deleteExpiredPasswordResetTokens ::
  "timestamp \<Rightarrow> PasswordResetToken list \<Rightarrow> nat \<times> PasswordResetToken list" where
  "deleteExpiredPasswordResetTokens now rows = deleteMany (\<lambda>r. prt_expiresAt r < now) rows"

definition deleteUsedPasswordResetTokens ::
  "PasswordResetToken list \<Rightarrow> nat \<times> PasswordResetToken list" where
  "deleteUsedPasswordResetTokens rows = deleteMany (\<lambda>r. prt_isUsed r = True) rows"

definition countActiveUserPasswordResetTokens ::
  "timestamp \<Rightarrow> string \<Rightarrow> PasswordResetToken list \<Rightarrow> nat" where
  "countActiveUserPasswordResetTokens now userId rows =
     prisma_count (\<lambda>r. prt_userId r = userId \<and> prt_isUsed r = False \<and> prt_expiresAt r > now) rows"

text \<open>
  The \<^verbatim>\<open>where\<close> object of \<^verbatim>\<open>getPasswordResetTokens\<close>: \<^verbatim>\<open>filters?.userId\<close> is tested
  for truthiness (an empty string adds no condition), the two booleans for being
  defined. In the paginated listings \<open>page\<close> and \<open>limit\<close> are integers, given by
  the caller or by the defaults 1 and 10; an absent \<^verbatim>\<open>filters\<close> is \<open>None\<close>.
\<close>

definition prt_where :: "timestamp \<Rightarrow> prt_filters option \<Rightarrow> PasswordResetToken \<Rightarrow> bool" where
  "prt_where now filters r =
     (case filters of
        None \<Rightarrow> True
      | Some f \<Rightarrow>
          (case pf_userId f of None \<Rightarrow> True | Some u \<Rightarrow> (if u = [] then True else prt_userId r = u)) \<and>
          (case pf_isUsed f of None \<Rightarrow> True | Some b \<Rightarrow> prt_isUsed r = b) \<and>
          (case pf_isExpired f of
             None \<Rightarrow> True
           | Some b \<Rightarrow> (if b then prt_expiresAt r < now else prt_expiresAt r \<ge> now)))"

definition getPasswordResetTokens ::
  "timestamp \<Rightarrow> int \<Rightarrow> int \<Rightarrow> prt_filters option \<Rightarrow> PasswordResetToken list \<Rightarrow>
   prisma_error + (PasswordResetToken list \<times> pagination)" where
  "getPasswordResetTokens now page limit filters rows =
     (let skip = to_double (to_double (page - 1) * limit);
          tot = prisma_count (prt_where now filters) rows
      in case findManyPage (prt_where now filters) prt_createdAt skip limit rows of
           Inl e \<Rightarrow> Inl e
         | Inr items \<Rightarrow>
             Inr (items, \<lparr>pg_page = page, pg_limit = limit, pg_total = tot,
                          pg_pages = math_ceil_div tot limit\<rparr>))"

definition isPasswordResetTokenValid :: "timestamp \<Rightarrow> string \<Rightarrow> PasswordResetToken list \<Rightarrow> bool" where
  "isPasswordResetTokenValid now token rows =
     (case findUnique (\<lambda>r. prt_token r = token) rows of
        None \<Rightarrow> False
      | Some r \<Rightarrow> \<not> prt_isUsed r \<and> prt_expiresAt r > now)"

definition invalidateAllUserPasswordResetTokens ::
  "string \<Rightarrow> PasswordResetToken list \<Rightarrow> nat \<times> PasswordResetToken list" where
  "invalidateAllUserPasswordResetTokens userId rows =
     updateMany (\<lambda>r. prt_userId r = userId) (\<lambda>r. r\<lparr>prt_isUsed := True\<rparr>) rows"

text \<open>
  The exported mutations of the service, one constructor each, and what each leaves
  of the table (\<open>Inl\<close> when the call throws, and the table is then as it was).
\<close>

datatype prt_mutation =
    CreatePasswordResetToken "string list" string timestamp CreatePasswordResetTokenData
  | UpdatePasswordResetToken string UpdatePasswordResetTokenData
  | MarkPasswordResetTokenAsUsed string
  | MarkPasswordResetTokenAsUsedByToken string
  | DeletePasswordResetToken string
  | DeletePasswordResetTokenByToken string
  | DeleteAllUserPasswordResetTokens string
  | DeleteExpiredPasswordResetTokens timestamp
  | DeleteUsedPasswordResetTokens
  | InvalidateAllUserPasswordResetTokens string

fun prt_run :: "prt_mutation \<Rightarrow> PasswordResetToken list \<Rightarrow> prisma_error + PasswordResetToken list" where
  "prt_run (CreatePasswordResetToken users newId now data) rows =
     map_sum (\<lambda>e. e) snd (createPasswordResetToken users newId now data rows)"
| "prt_run (UpdatePasswordResetToken i data) rows =
     map_sum (\<lambda>e. e) snd (updatePasswordResetToken i data rows)"
| "prt_run (MarkPasswordResetTokenAsUsed i) rows =
     map_sum (\<lambda>e. e) snd (markPasswordResetTokenAsUsed i rows)"
| "prt_run (MarkPasswordResetTokenAsUsedByToken token) rows =
     map_sum (\<lambda>e. e) snd (markPasswordResetTokenAsUsedByToken token rows)"
| "prt_run (DeletePasswordResetToken i) rows =
     map_sum (\<lambda>e. e) snd (deletePasswordResetToken i rows)"
| "prt_run (DeletePasswordResetTokenByToken token) rows =
     map_sum (\<lambda>e. e) snd (deletePasswordResetTokenByToken token rows)"
| "prt_run (DeleteAllUserPasswordResetTokens userId) rows =
     Inr (snd (deleteAllUserPasswordResetTokens userId rows))"
| "prt_run (DeleteExpiredPasswordResetTokens now) rows =
     Inr (snd (deleteExpiredPasswordResetTokens now rows))"
| "prt_run DeleteUsedPasswordResetTokens rows =
     Inr (snd (deleteUsedPasswordResetTokens rows))"
| "prt_run (InvalidateAllUserPasswordResetTokens userId) rows =
     Inr (snd (invalidateAllUserPasswordResetTokens userId rows))"

section \<open>Refresh tokens (\<^verbatim>\<open>refresh-token.service.ts\<close>)\<close>

record RefreshToken =
  rt_id :: string
  rt_token :: string
  rt_userId :: string
  rt_expiresAt :: timestamp
  rt_isRevoked :: bool
  rt_createdAt :: timestamp

record CreateRefreshTokenData =
  crt_token :: string
  crt_userId :: string
  crt_expiresAt :: timestamp

record UpdateRefreshTokenData =
  urt_isRevoked :: "bool option"
  urt_expiresAt :: "timestamp option"

record rt_filters =
  rf_userId :: "string option"
  rf_isRevoked :: "bool option"
  rf_isExpired :: "bool option"

definition rt_wf :: "RefreshToken list \<Rightarrow> bool" where
  "rt_wf rows = (distinct (map rt_id rows) \<and> distinct (map rt_token rows))"

text \<open>
  Modelled from the spec: the schema of the table is not among the sources; the
  generated identifier, the creation timestamp, the unique \<open>token\<close>, the revoked flag
  a fresh token does not carry and the referential constraint on the owning user are
  the spec's.
\<close>

definition createRefreshToken ::
  "string list \<Rightarrow> string \<Rightarrow> timestamp \<Rightarrow> CreateRefreshTokenData \<Rightarrow>
   RefreshToken list \<Rightarrow> prisma_error + (RefreshToken \<times> RefreshToken list)" where
  "createRefreshToken users newId now data rows =
     (if crt_userId data \<notin> set users then Inl ForeignKeyViolation
      else if newId \<in> set (map rt_id rows) \<or> crt_token data \<in> set (map rt_token rows)
        then Inl UniqueConstraintViolation
      else
        (let r = \<lparr>rt_id = newId, rt_token = crt_token data, rt_userId = crt_userId data,
                  rt_expiresAt = crt_expiresAt data, rt_isRevoked = False, rt_createdAt = now\<rparr>
         in Inr (r, rows @ [r])))"

definition rt_apply :: "UpdateRefreshTokenData \<Rightarrow> RefreshToken \<Rightarrow> RefreshToken" where
  "rt_apply data r =
     (let r1 = (case urt_isRevoked data of None \<Rightarrow> r | Some b \<Rightarrow> r\<lparr>rt_isRevoked := b\<rparr>)
      in (case urt_expiresAt data of None \<Rightarrow> r1 | Some e \<Rightarrow> r1\<lparr>rt_expiresAt := e\<rparr>))"

definition updateRefreshToken ::
  "string \<Rightarrow> UpdateRefreshTokenData \<Rightarrow> RefreshToken list \<Rightarrow>
   prisma_error + (RefreshToken \<times> RefreshToken list)" where
  "updateRefreshToken i data rows = prisma_update (\<lambda>r. rt_id r = i) (rt_apply data) rows"

definition revokeRefreshToken ::
  "string \<Rightarrow> RefreshToken list \<Rightarrow> prisma_error + (RefreshToken \<times> RefreshToken list)" where
  "revokeRefreshToken i rows =
     prisma_update (\<lambda>r. rt_id r = i) (\<lambda>r. r\<lparr>rt_isRevoked := True\<rparr>) rows"

definition revokeRefreshTokenByToken ::
  "string \<Rightarrow> RefreshToken list \<Rightarrow> prisma_error + (RefreshToken \<times> RefreshToken list)" where
  "revokeRefreshTokenByToken token rows =
     prisma_update (\<lambda>r. rt_token r = token) (\<lambda>r. r\<lparr>rt_isRevoked := True\<rparr>) rows"

definition getUserRefreshTokens :: "string \<Rightarrow> RefreshToken list \<Rightarrow> RefreshToken list" where
  "getUserRefreshTokens userId rows = findMany (\<lambda>r. rt_userId r = userId) rt_createdAt rows"

definition deleteRefreshToken ::
  "string \<Rightarrow> RefreshToken list \<Rightarrow> prisma_error + (RefreshToken \<times> RefreshToken list)" where
  "deleteRefreshToken i rows = prisma_delete (\<lambda>r. rt_id r = i) rows"

definition deleteRefreshTokenByToken ::
  "string \<Rightarrow> RefreshToken list \<Rightarrow> prisma_error + (RefreshToken \<times> RefreshToken list)" where
  "deleteRefreshTokenByToken token rows = prisma_delete (\<lambda>r. rt_token r = token) rows"

definition deleteAllUserRefreshTokens :: "string \<Rightarrow> RefreshToken list \<Rightarrow> nat \<times> RefreshToken list" where
  "deleteAllUserRefreshTokens userId rows = deleteMany (\<lambda>r. rt_userId r = userId) rows"

definition deleteExpiredRefreshTokens :: "timestamp \<Rightarrow> RefreshToken list \<Rightarrow> nat \<times> RefreshToken list" where
  "deleteExpiredRefreshTokens now rows = deleteMany (\<lambda>r. rt_expiresAt r < now) rows"

definition deleteRevokedRefreshTokens :: "RefreshToken list \<Rightarrow> nat \<times> RefreshToken list" where
  "deleteRevokedRefreshTokens rows = deleteMany (\<lambda>r. rt_isRevoked r = True) rows"

definition countActiveUserRefreshTokens :: "timestamp \<Rightarrow> string \<Rightarrow> RefreshToken list \<Rightarrow> nat" where
  "countActiveUserRefreshTokens now userId rows =
     prisma_count (\<lambda>r. rt_userId r = userId \<and> rt_isRevoked r = False \<and> rt_expiresAt r > now) rows"

definition rt_where :: "timestamp \<Rightarrow> rt_filters option \<Rightarrow> RefreshToken \<Rightarrow> bool" where
  "rt_where now filters r =
     (case filters of
        None \<Rightarrow> True
      | Some f \<Rightarrow>
          (case rf_userId f of None \<Rightarrow> True | Some u \<Rightarrow> (if u = [] then True else rt_userId r = u)) \<and>
          (case rf_isRevoked f of None \<Rightarrow> True | Some b \<Rightarrow> rt_isRevoked r = b) \<and>
          (case rf_isExpired f of
             None \<Rightarrow> True
           | Some b \<Rightarrow> (if b then rt_expiresAt r < now else rt_expiresAt r \<ge> now)))"

definition getRefreshTokens ::
  "timestamp \<Rightarrow> int \<Rightarrow> int \<Rightarrow> rt_filters option \<Rightarrow> RefreshToken list \<Rightarrow>
   prisma_error + (RefreshToken list \<times> pagination)" where
  "getRefreshTokens now page limit filters rows =
     (let skip = to_double (to_double (page - 1) * limit);
          tot = prisma_count (rt_where now filters) rows
      in case findManyPage (rt_where now filters) rt_createdAt skip limit rows of
           Inl e \<Rightarrow> Inl e
         | Inr items \<Rightarrow>
             Inr (items, \<lparr>pg_page = page, pg_limit = limit, pg_total = tot,
                          pg_pages = math_ceil_div tot limit\<rparr>))"

definition isRefreshTokenValid :: "timestamp \<Rightarrow> string \<Rightarrow> RefreshToken list \<Rightarrow> bool" where
  "isRefreshTokenValid now token rows =
     (case findUnique (\<lambda>r. rt_token r = token) rows of
        None \<Rightarrow> False
      | Some r \<Rightarrow> \<not> rt_isRevoked r \<and> rt_expiresAt r > now)"

datatype rt_mutation =
    CreateRefreshToken "string list" string timestamp CreateRefreshTokenData
  | UpdateRefreshToken string UpdateRefreshTokenData
  | RevokeRefreshToken string
  | RevokeRefreshTokenByToken string
  | DeleteRefreshToken string
  | DeleteRefreshTokenByToken string
  | DeleteAllUserRefreshTokens string
  | DeleteExpiredRefreshTokens timestamp
  | DeleteRevokedRefreshTokens

fun rt_run :: "rt_mutation \<Rightarrow> RefreshToken list \<Rightarrow> prisma_error + RefreshToken list" where
  "rt_run (CreateRefreshToken users newId now data) rows =
     map_sum (\<lambda>e. e) snd (createRefreshToken users newId now data rows)"
| "rt_run (UpdateRefreshToken i data) rows = map_sum (\<lambda>e. e) snd (updateRefreshToken i data rows)"
| "rt_run (RevokeRefreshToken i) rows = map_sum (\<lambda>e. e) snd (revokeRefreshToken i rows)"
| "rt_run (RevokeRefreshTokenByToken token) rows =
     map_sum (\<lambda>e. e) snd (revokeRefreshTokenByToken token rows)"
| "rt_run (DeleteRefreshToken i) rows = map_sum (\<lambda>e. e) snd (deleteRefreshToken i rows)"
| "rt_run (DeleteRefreshTokenByToken token) rows =
     map_sum (\<lambda>e. e) snd (deleteRefreshTokenByToken token rows)"
| "rt_run (DeleteAllUserRefreshTokens userId) rows = Inr (snd (deleteAllUserRefreshTokens userId rows))"
| "rt_run (DeleteExpiredRefreshTokens now) rows = Inr (snd (deleteExpiredRefreshTokens now rows))"
| "rt_run DeleteRevokedRefreshTokens rows = Inr (snd (deleteRevokedRefreshTokens rows))"

section \<open>Sessions (\<^verbatim>\<open>session.service.ts\<close>)\<close>

record Session =
  s_id :: string
  s_token :: string
  s_userId :: string
  s_ipAddress :: "string option"
  s_userAgent :: "string option"
  s_expiresAt :: timestamp
  s_lastActivityAt :: timestamp
  s_createdAt :: timestamp

record session_filters =
  sf_userId :: "string option"
  sf_isExpired :: "bool option"

definition updateSessionActivity ::
  "timestamp \<Rightarrow> string \<Rightarrow> Session list \<Rightarrow> prisma_error + (Session \<times> Session list)" where
  "updateSessionActivity now token rows =
     prisma_update (\<lambda>r. s_token r = token) (\<lambda>r. r\<lparr>s_lastActivityAt := now\<rparr>) rows"

definition getUserSessions :: "string \<Rightarrow> Session list \<Rightarrow> Session list" where
  "getUserSessions userId rows = findMany (\<lambda>r. s_userId r = userId) s_lastActivityAt rows"

definition getActiveUserSessions :: "timestamp \<Rightarrow> string \<Rightarrow> Session list \<Rightarrow> Session list" where
  "getActiveUserSessions now userId rows =
     findMany (\<lambda>r. s_userId r = userId \<and> s_expiresAt r > now) s_lastActivityAt rows"

definition deleteAllUserSessions :: "string \<Rightarrow> Session list \<Rightarrow> nat \<times> Session list" where
  "deleteAllUserSessions userId rows = deleteMany (\<lambda>r. s_userId r = userId) rows"

definition deleteExpiredSessions :: "timestamp \<Rightarrow> Session list \<Rightarrow> nat \<times> Session list" where
  "deleteExpiredSessions now rows = deleteMany (\<lambda>r. s_expiresAt r < now) rows"

definition countActiveUserSessions :: "timestamp \<Rightarrow> string \<Rightarrow> Session list \<Rightarrow> nat" where
  "countActiveUserSessions now userId rows =
     prisma_count (\<lambda>r. s_userId r = userId \<and> s_expiresAt r > now) rows"

definition session_where :: "timestamp \<Rightarrow> session_filters option \<Rightarrow> Session \<Rightarrow> bool" where
  "session_where now filters r =
     (case filters of
        None \<Rightarrow> True
      | Some f \<Rightarrow>
          (case sf_userId f of None \<Rightarrow> True | Some u \<Rightarrow> (if u = [] then True else s_userId r = u)) \<and>
          (case sf_isExpired f of
             None \<Rightarrow> True
           | Some b \<Rightarrow> (if b then s_expiresAt r < now else s_expiresAt r \<ge> now)))"

definition getSessions ::
  "timestamp \<Rightarrow> int \<Rightarrow> int \<Rightarrow> session_filters option \<Rightarrow> Session list \<Rightarrow>
   prisma_error + (Session list \<times> pagination)" where
  "getSessions now page limit filters rows =
     (let skip = to_double (to_double (page - 1) * limit);
          tot = prisma_count (session_where now filters) rows
      in case findManyPage (session_where now filters) s_lastActivityAt skip limit rows of
           Inl e \<Rightarrow> Inl e
         | Inr items \<Rightarrow>
             Inr (items, \<lparr>pg_page = page, pg_limit = limit, pg_total = tot,
                          pg_pages = math_ceil_div tot limit\<rparr>))"

section \<open>Users and roles (\<^verbatim>\<open>user.service.ts\<close>, \<^verbatim>\<open>role.service.ts\<close>)\<close>

record User =
  u_id :: string
  u_email :: string
  u_password :: string
  u_firstName :: string
  u_lastName :: string
  u_roleId :: string
  u_phone :: "string option"
  u_avatar :: "string option"
  u_isActive :: bool
  u_createdAt :: timestamp

record user_filters =
  uf_isActive :: "bool option"
  uf_roleId :: "string option"
  uf_search :: "string option"

text \<open>
  The \<^verbatim>\<open>where\<close> object of \<^verbatim>\<open>getUsers\<close>; \<open>contains\<close> is the store's
  case-insensitive \<^verbatim>\<open>contains\<close> (column value first, search string second).
\<close>

definition user_where :: "(string \<Rightarrow> string \<Rightarrow> bool) \<Rightarrow> user_filters option \<Rightarrow> User \<Rightarrow> bool" where
  "user_where contains filters u =
     (case filters of
        None \<Rightarrow> True
      | Some f \<Rightarrow>
          (case uf_isActive f of None \<Rightarrow> True | Some b \<Rightarrow> u_isActive u = b) \<and>
          (case uf_roleId f of None \<Rightarrow> True | Some r \<Rightarrow> (if r = [] then True else u_roleId u = r)) \<and>
          (case uf_search f of
             None \<Rightarrow> True
           | Some q \<Rightarrow>
               (if q = [] then True
                else contains (u_firstName u) q \<or> contains (u_lastName u) q \<or> contains (u_email u) q)))"

text \<open>Whether the call carries a search string: \<^verbatim>\<open>filters?.search\<close> is truthy.\<close>

definition user_searches :: "user_filters option \<Rightarrow> bool" where
  "user_searches filters =
     (case filters of
        None \<Rightarrow> False
      | Some f \<Rightarrow> (case uf_search f of None \<Rightarrow> False | Some q \<Rightarrow> q \<noteq> []))"

text \<open>
  The search conditions are written with \<^verbatim>\<open>mode: 'insensitive'\<close>, which the client
  knows only for some database providers. The provider is named in the schema, which
  is not among the sources (the connection strings of \<^verbatim>\<open>config/database.ts\<close> are
  MySQL's, which has no such mode): \<open>insensitive\<close> is \<open>None\<close> for a provider without
  the mode, where the client rejects both queries of a call that searches, and
  \<open>Some contains\<close> for a provider with it.
\<close>

definition getUsers ::
  "(string \<Rightarrow> string \<Rightarrow> bool) option \<Rightarrow> int \<Rightarrow> int \<Rightarrow> user_filters option \<Rightarrow> User list \<Rightarrow>
   prisma_error + (User list \<times> pagination)" where
  "getUsers insensitive page limit filters rows =
     (if insensitive = None \<and> user_searches filters then Inl ValidationError
      else
        (let contains = (case insensitive of None \<Rightarrow> (\<lambda>c q. False) | Some c \<Rightarrow> c);
             skip = to_double (to_double (page - 1) * limit);
             tot = prisma_count (user_where contains filters) rows
         in case findManyPage (user_where contains filters) u_createdAt skip limit rows of
              Inl e \<Rightarrow> Inl e
            | Inr items \<Rightarrow>
                Inr (items, \<lparr>pg_page = page, pg_limit = limit, pg_total = tot,
                             pg_pages = math_ceil_div tot limit\<rparr>)))"





section \<open>Audit logs (\<^verbatim>\<open>audit.service.ts\<close>): the paginated listing\<close>

text \<open>The snapshots \<open>oldValue\<close> and \<open>newValue\<close> are opaque to the listing.\<close>

record AuditLog =
  a_id :: string
  a_action :: string
  a_entityType :: string
  a_entityId :: string
  a_userId :: string
  a_oldValue :: "string option"
  a_newValue :: "string option"
  a_ipAddress :: "string option"
  a_userAgent :: "string option"
  a_createdAt :: timestamp

record audit_filters =
  af_userId :: "string option"
  af_entityType :: "string option"
  af_entityId :: "string option"
  af_action :: "string option"
  af_dateFrom :: "timestamp option"
  af_dateTo :: "timestamp option"

text \<open>
  The four strings are tested for truthiness; a \<^verbatim>\<open>Date\<close> that is given is an
  object, and so always truthy.
\<close>

definition audit_where :: "audit_filters option \<Rightarrow> AuditLog \<Rightarrow> bool" where
  "audit_where filters r =
     (case filters of
        None \<Rightarrow> True
      | Some f \<Rightarrow>
          (case af_userId f of None \<Rightarrow> True | Some u \<Rightarrow> (if u = [] then True else a_userId r = u)) \<and>
          (case af_entityType f of
             None \<Rightarrow> True | Some t \<Rightarrow> (if t = [] then True else a_entityType r = t)) \<and>
          (case af_entityId f of
             None \<Rightarrow> True | Some e \<Rightarrow> (if e = [] then True else a_entityId r = e)) \<and>
          (case af_action f of None \<Rightarrow> True | Some a \<Rightarrow> (if a = [] then True else a_action r = a)) \<and>
          (case af_dateFrom f of None \<Rightarrow> True | Some d \<Rightarrow> a_createdAt r \<ge> d) \<and>
          (case af_dateTo f of None \<Rightarrow> True | Some d \<Rightarrow> a_createdAt r \<le> d))"

definition getAuditLogs ::
  "int \<Rightarrow> int \<Rightarrow> audit_filters option \<Rightarrow> AuditLog list \<Rightarrow>
   prisma_error + (AuditLog list \<times> pagination)" where
  "getAuditLogs page limit filters rows =
     (let skip = to_double (to_double (page - 1) * limit);
          tot = prisma_count (audit_where filters) rows
      in case findManyPage (audit_where filters) a_createdAt skip limit rows of
           Inl e \<Rightarrow> Inl e
         | Inr items \<Rightarrow>
             Inr (items, \<lparr>pg_page = page, pg_limit = limit, pg_total = tot,
                          pg_pages = math_ceil_div tot limit\<rparr>))"

section \<open>The generic update and the terminal flags\<close>

text \<open>
  The one kind of call that writes \<open>false\<close> into a terminal flag: the generic update
  of either service with the flag given as \<open>false\<close> in \<^verbatim>\<open>data\<close>.
\<close>

fun prt_resets :: "prt_mutation \<Rightarrow> bool" where
  "prt_resets (UpdatePasswordResetToken i data) = (uprt_isUsed data = Some False)"
| "prt_resets _ = False"

fun rt_resets :: "rt_mutation \<Rightarrow> bool" where
  "rt_resets (UpdateRefreshToken i data) = (urt_isRevoked data = Some False)"
| "rt_resets _ = False"

section \<open>Sample rows\<close>

abbreviation prt_a :: PasswordResetToken where
  "prt_a \<equiv> \<lparr>prt_id = ''p1'', prt_token = ''t1'', prt_userId = ''u1'', prt_expiresAt = 100,
             prt_isUsed = False, prt_createdAt = 10\<rparr>"

abbreviation prt_b :: PasswordResetToken where
  "prt_b \<equiv> \<lparr>prt_id = ''p2'', prt_token = ''t2'', prt_userId = ''u1'', prt_expiresAt = 100,
             prt_isUsed = True, prt_createdAt = 20\<rparr>"

abbreviation prt_c :: PasswordResetToken where
  "prt_c \<equiv> \<lparr>prt_id = ''p3'', prt_token = ''t3'', prt_userId = ''u1'', prt_expiresAt = 30,
             prt_isUsed = False, prt_createdAt = 5\<rparr>"

abbreviation rt_a :: RefreshToken where
  "rt_a \<equiv> \<lparr>rt_id = ''r1'', rt_token = ''t1'', rt_userId = ''u1'', rt_expiresAt = 100,
            rt_isRevoked = False, rt_createdAt = 10\<rparr>"

abbreviation rt_b :: RefreshToken where
  "rt_b \<equiv> \<lparr>rt_id = ''r2'', rt_token = ''t2'', rt_userId = ''u1'', rt_expiresAt = 100,
            rt_isRevoked = True, rt_createdAt = 20\<rparr>"

abbreviation rt_c :: RefreshToken where
  "rt_c \<equiv> \<lparr>rt_id = ''r3'', rt_token = ''t3'', rt_userId = ''u1'', rt_expiresAt = 30,
            rt_isRevoked = False, rt_createdAt = 5\<rparr>"


abbreviation ses_a :: Session where
  "ses_a \<equiv> \<lparr>s_id = ''s1'', s_token = ''t1'', s_userId = ''u1'', s_ipAddress = None,
             s_userAgent = None, s_expiresAt = 100, s_lastActivityAt = 10, s_createdAt = 10\<rparr>"

abbreviation ses_b :: Session where
  "ses_b \<equiv> \<lparr>s_id = ''s2'', s_token = ''t2'', s_userId = ''u1'', s_ipAddress = None,
             s_userAgent = None, s_expiresAt = 100, s_lastActivityAt = 20, s_createdAt = 20\<rparr>"



abbreviation user_a :: User where
  "user_a \<equiv> \<lparr>u_id = ''u1'', u_email = ''admin@example.com'', u_password = ''x'',
              u_firstName = ''Admin'', u_lastName = ''User'', u_roleId = ''g1'', u_phone = None,
              u_avatar = None, u_isActive = True, u_createdAt = 1\<rparr>"

text \<open>The \<open>n\<close>-th of a run of users with distinct ids, created one after the other.\<close>

abbreviation user_n :: "nat \<Rightarrow> User" where
  "user_n n \<equiv> \<lparr>u_id = replicate (Suc n) CHR ''u'', u_email = replicate (Suc n) CHR ''e'',
                u_password = ''x'', u_firstName = ''F'', u_lastName = ''L'', u_roleId = ''g2'',
                u_phone = None, u_avatar = None, u_isActive = True, u_createdAt = int n\<rparr>"

text \<open>The filter that asks only for expired, or only for unexpired, rows.\<close>

abbreviation prt_expired_is :: "bool \<Rightarrow> prt_filters option" where
  "prt_expired_is b \<equiv> Some \<lparr>pf_userId = None, pf_isUsed = None, pf_isExpired = Some b\<rparr>"

abbreviation rt_expired_is :: "bool \<Rightarrow> rt_filters option" where
  "rt_expired_is b \<equiv> Some \<lparr>rf_userId = None, rf_isRevoked = None, rf_isExpired = Some b\<rparr>"

section \<open>Lookups on a unique column\<close>

lemma find_unique_key:
  "distinct (map k rows) \<Longrightarrow> r \<in> set rows \<Longrightarrow> find (\<lambda>x. k x = k r) rows = Some r"
  by (induction rows) (auto simp: image_iff)

lemma find_absent_key:
  "v \<notin> set (map k rows) \<Longrightarrow> find (\<lambda>x. k x = v) rows = None"
  by (induction rows) auto

lemma find_appended_key:
  "v \<notin> set (map k rows) \<Longrightarrow> k r = v \<Longrightarrow> find (\<lambda>x. k x = v) (rows @ [r]) = Some r"
  by (induction rows) auto


section \<open>The validity check\<close>

text \<open>
  C1. The validity check of a token string is false when no row carries the token;
  for a row of the table it is \<open>\<not> flag \<and> expiresAt > now\<close>, with the single \<open>now\<close> of
  the call; and a token issued with an expiry strictly before its issue time is found
  under its token and is invalid at every later time. The same for password reset
  tokens (\<open>isUsed\<close>) and refresh tokens (\<open>isRevoked\<close>).
\<close>

theorem validity_check:
  "(token \<notin> set (map prt_token prts) \<longrightarrow> isPasswordResetTokenValid now token prts = False) \<and>
   (prt_wf prts \<and> p \<in> set prts \<longrightarrow>
      isPasswordResetTokenValid now (prt_token p) prts = (\<not> prt_isUsed p \<and> prt_expiresAt p > now)) \<and>
   (createPasswordResetToken users newId issuedAt data prts = Inr (p', prts') \<and>
      cprt_expiresAt data < issuedAt \<and> issuedAt \<le> now \<longrightarrow>
      findPasswordResetTokenByToken (cprt_token data) prts' = Some p' \<and>
      isPasswordResetTokenValid now (cprt_token data) prts' = False) \<and>
   (rtoken \<notin> set (map rt_token rts) \<longrightarrow> isRefreshTokenValid now rtoken rts = False) \<and>
   (rt_wf rts \<and> q \<in> set rts \<longrightarrow>
      isRefreshTokenValid now (rt_token q) rts = (\<not> rt_isRevoked q \<and> rt_expiresAt q > now)) \<and>
   (createRefreshToken users newId issuedAt rdata rts = Inr (q', rts') \<and>
      crt_expiresAt rdata < issuedAt \<and> issuedAt \<le> now \<longrightarrow>
      isRefreshTokenValid now (crt_token rdata) rts' = False)"
proof (intro conjI impI)
  assume "token \<notin> set (map prt_token prts)"
  then show "isPasswordResetTokenValid now token prts = False"
    by (simp add: isPasswordResetTokenValid_def findUnique_def find_absent_key)
next
  assume "prt_wf prts \<and> p \<in> set prts"
  then have "find (\<lambda>x. prt_token x = prt_token p) prts = Some p"
    by (simp add: prt_wf_def find_unique_key)
  then show "isPasswordResetTokenValid now (prt_token p) prts = (\<not> prt_isUsed p \<and> prt_expiresAt p > now)"
    by (simp add: isPasswordResetTokenValid_def findUnique_def)
next
  assume a: "createPasswordResetToken users newId issuedAt data prts = Inr (p', prts') \<and>
      cprt_expiresAt data < issuedAt \<and> issuedAt \<le> now"
  then have fresh: "cprt_token data \<notin> set (map prt_token prts)"
    and p': "prt_token p' = cprt_token data" "prt_expiresAt p' = cprt_expiresAt data"
    and prts': "prts' = prts @ [p']"
    by (auto simp: createPasswordResetToken_def Let_def split: if_splits)
  have f: "find (\<lambda>x. prt_token x = cprt_token data) prts' = Some p'"
    unfolding prts' using fresh p'(1) by (rule find_appended_key)
  then show "findPasswordResetTokenByToken (cprt_token data) prts' = Some p'"
    by (simp add: findPasswordResetTokenByToken_def findUnique_def)
  show "isPasswordResetTokenValid now (cprt_token data) prts' = False"
    using f a p'(2) by (simp add: isPasswordResetTokenValid_def findUnique_def)
next
  assume "rtoken \<notin> set (map rt_token rts)"
  then show "isRefreshTokenValid now rtoken rts = False"
    by (simp add: isRefreshTokenValid_def findUnique_def find_absent_key)
next
  assume "rt_wf rts \<and> q \<in> set rts"
  then have "find (\<lambda>x. rt_token x = rt_token q) rts = Some q"
    by (simp add: rt_wf_def find_unique_key)
  then show "isRefreshTokenValid now (rt_token q) rts = (\<not> rt_isRevoked q \<and> rt_expiresAt q > now)"
    by (simp add: isRefreshTokenValid_def findUnique_def)
next
  assume a: "createRefreshToken users newId issuedAt rdata rts = Inr (q', rts') \<and>
      crt_expiresAt rdata < issuedAt \<and> issuedAt \<le> now"
  then have fresh: "crt_token rdata \<notin> set (map rt_token rts)"
    and q': "rt_token q' = crt_token rdata" "rt_expiresAt q' = crt_expiresAt rdata"
    and rts': "rts' = rts @ [q']"
    by (auto simp: createRefreshToken_def Let_def split: if_splits)
  have f: "find (\<lambda>x. rt_token x = crt_token rdata) rts' = Some q'"
    unfolding rts' using fresh q'(1) by (rule find_appended_key)
  show "isRefreshTokenValid now (crt_token rdata) rts' = False"
    using f a q'(2) by (simp add: isRefreshTokenValid_def findUnique_def)
qed


theorem validity_check_witness:
  "isPasswordResetTokenValid 50 ''zz'' [prt_a, prt_b] = False \<and>
   isPasswordResetTokenValid 50 ''t1'' [prt_a, prt_b] = True \<and>
   isPasswordResetTokenValid 50 ''t3'' [prt_a, prt_b, prt_c] = False \<and>
   createPasswordResetToken [''u1''] ''p3'' 40
     \<lparr>cprt_token = ''t3'', cprt_userId = ''u1'', cprt_expiresAt = 30\<rparr> [prt_a, prt_b]
     = Inr (prt_c\<lparr>prt_createdAt := 40\<rparr>, [prt_a, prt_b, prt_c\<lparr>prt_createdAt := 40\<rparr>]) \<and>
   isPasswordResetTokenValid 50 ''t3'' [prt_a, prt_b, prt_c\<lparr>prt_createdAt := 40\<rparr>] = False \<and>
   isRefreshTokenValid 50 ''zz'' [rt_a, rt_b] = False \<and>
   isRefreshTokenValid 50 ''t1'' [rt_a, rt_b] = True \<and>
   isRefreshTokenValid 50 ''t3'' [rt_a, rt_b, rt_c\<lparr>rt_createdAt := 40\<rparr>] = False"
proof -
  have c: "createPasswordResetToken [''u1''] ''p3'' 40
     \<lparr>cprt_token = ''t3'', cprt_userId = ''u1'', cprt_expiresAt = 30\<rparr> [prt_a, prt_b]
     = Inr (prt_c\<lparr>prt_createdAt := 40\<rparr>, [prt_a, prt_b, prt_c\<lparr>prt_createdAt := 40\<rparr>])"
    by (simp add: createPasswordResetToken_def Let_def)
  have d: "createRefreshToken [''u1''] ''r3'' 40
     \<lparr>crt_token = ''t3'', crt_userId = ''u1'', crt_expiresAt = 30\<rparr> [rt_a, rt_b]
     = Inr (rt_c\<lparr>rt_createdAt := 40\<rparr>, [rt_a, rt_b, rt_c\<lparr>rt_createdAt := 40\<rparr>])"
    by (simp add: createRefreshToken_def Let_def)
  show ?thesis
    using c d
      validity_check [where token = "''zz''" and prts = "[prt_a, prt_b]" and now = 50 and p = prt_a
        and users = "[''u1'']" and newId = "''p3''" and issuedAt = 40
        and data = "\<lparr>cprt_token = ''t3'', cprt_userId = ''u1'', cprt_expiresAt = 30\<rparr>"
        and p' = "prt_c\<lparr>prt_createdAt := 40\<rparr>"
        and prts' = "[prt_a, prt_b, prt_c\<lparr>prt_createdAt := 40\<rparr>]"
        and rtoken = "''zz''" and rts = "[rt_a, rt_b]" and q = rt_a]
      validity_check [where users = "[''u1'']" and newId = "''r3''" and issuedAt = 40 and now = 50
        and rdata = "\<lparr>crt_token = ''t3'', crt_userId = ''u1'', crt_expiresAt = 30\<rparr>"
        and q' = "rt_c\<lparr>rt_createdAt := 40\<rparr>" and rts = "[rt_a, rt_b]"
        and rts' = "[rt_a, rt_b, rt_c\<lparr>rt_createdAt := 40\<rparr>]"]
    by (simp add: prt_wf_def rt_wf_def isPasswordResetTokenValid_def findUnique_def)
qed

section \<open>Rows under the bulk and the single-row writes\<close>

lemma same_key_same_row:
  "distinct (map k rows) \<Longrightarrow> x \<in> set rows \<Longrightarrow> y \<in> set rows \<Longrightarrow> k x = k y \<Longrightarrow> x = y"
  by (meson distinct_map inj_onD)

lemma prisma_update_rows:
  "prisma_update P f rows = Inr (r', rows') \<Longrightarrow> rows' = map (\<lambda>x. if P x then f x else x) rows"
  by (auto simp: prisma_update_def split: option.splits)

lemma prisma_delete_rows:
  "prisma_delete P rows = Inr (r', rows') \<Longrightarrow> rows' = filter (\<lambda>x. \<not> P x) rows"
  by (auto simp: prisma_delete_def split: option.splits)

lemma rewritten_row:
  assumes d: "distinct (map k rows)" and p: "p \<in> set rows"
    and key: "\<And>x. k (f x) = k x"
    and p': "p' \<in> set (map (\<lambda>x. if P x then f x else x) rows)" and same: "k p' = k p"
  shows "p' = (if P p then f p else p)"
proof -
  from p' obtain x where x: "x \<in> set rows" and px: "p' = (if P x then f x else x)"
    by auto
  from px key have "k p' = k x" by (simp split: if_splits)
  with same have "k x = k p" by simp
  with d x p have "x = p" by (rule same_key_same_row)
  with px show ?thesis by simp
qed

lemma prt_apply_id [simp]: "prt_id (prt_apply data r) = prt_id r"
  by (simp add: prt_apply_def Let_def split: option.splits)

lemma prt_apply_used:
  "uprt_isUsed data \<noteq> Some False \<Longrightarrow> prt_isUsed r \<Longrightarrow> prt_isUsed (prt_apply data r)"
  by (auto simp: prt_apply_def Let_def split: option.splits)

lemma rt_apply_id [simp]: "rt_id (rt_apply data r) = rt_id r"
  by (simp add: rt_apply_def Let_def split: option.splits)

lemma rt_apply_revoked:
  "urt_isRevoked data \<noteq> Some False \<Longrightarrow> rt_isRevoked r \<Longrightarrow> rt_isRevoked (rt_apply data r)"
  by (auto simp: rt_apply_def Let_def split: option.splits)

lemma map_sum_snd_Inr:
  "map_sum (\<lambda>e. e) snd x = Inr b \<Longrightarrow> \<exists>a. x = Inr (a, b)"
  by (cases x) auto

lemma createPasswordResetToken_rows:
  "createPasswordResetToken users newId now data rows = Inr (r, rows') \<Longrightarrow>
     rows' = rows @ [r] \<and> prt_id r = newId \<and> newId \<notin> set (map prt_id rows) \<and>
     prt_token r = cprt_token data \<and> cprt_token data \<notin> set (map prt_token rows) \<and>
     prt_expiresAt r = cprt_expiresAt data \<and> \<not> prt_isUsed r"
  by (auto simp: createPasswordResetToken_def Let_def split: if_splits)

lemma prt_run_keeps_used:
  assumes wf: "distinct (map prt_id rows)" and p: "p \<in> set rows" and used: "prt_isUsed p"
    and m: "\<not> prt_resets m" and run: "prt_run m rows = Inr rows'"
    and p': "p' \<in> set rows'" and same: "prt_id p' = prt_id p"
  shows "prt_isUsed p'"
proof (cases m)
  case (CreatePasswordResetToken users newId now data)
  with run obtain r where "createPasswordResetToken users newId now data rows = Inr (r, rows')"
    by (auto dest: map_sum_snd_Inr)
  then have r: "rows' = rows @ [r]" "prt_id r = newId" "newId \<notin> set (map prt_id rows)"
    by (auto dest: createPasswordResetToken_rows)
  from r p same have "p' \<noteq> r" by force
  with r p' have "p' \<in> set rows" by simp
  with wf p same have "p' = p" by (metis same_key_same_row)
  with used show ?thesis by simp
next
  case (UpdatePasswordResetToken i data)
  with run obtain r' where "prisma_update (\<lambda>r. prt_id r = i) (prt_apply data) rows = Inr (r', rows')"
    by (auto simp: updatePasswordResetToken_def dest: map_sum_snd_Inr)
  then have "rows' = map (\<lambda>x. if prt_id x = i then prt_apply data x else x) rows"
    by (rule prisma_update_rows)
  with wf p p' same have "p' = (if prt_id p = i then prt_apply data p else p)"
    by (intro rewritten_row[where k = prt_id]) auto
  moreover from m UpdatePasswordResetToken have "uprt_isUsed data \<noteq> Some False" by simp
  ultimately show ?thesis using used by (simp add: prt_apply_used)
next
  case (MarkPasswordResetTokenAsUsed i)
  with run obtain r' where
    "prisma_update (\<lambda>r. prt_id r = i) (\<lambda>r. r\<lparr>prt_isUsed := True\<rparr>) rows = Inr (r', rows')"
    by (auto simp: markPasswordResetTokenAsUsed_def dest: map_sum_snd_Inr)
  then have "rows' = map (\<lambda>x. if prt_id x = i then x\<lparr>prt_isUsed := True\<rparr> else x) rows"
    by (rule prisma_update_rows)
  with wf p p' same have "p' = (if prt_id p = i then p\<lparr>prt_isUsed := True\<rparr> else p)"
    by (intro rewritten_row[where k = prt_id]) auto
  then show ?thesis using used by simp
next
  case (MarkPasswordResetTokenAsUsedByToken token)
  with run obtain r' where
    "prisma_update (\<lambda>r. prt_token r = token) (\<lambda>r. r\<lparr>prt_isUsed := True\<rparr>) rows = Inr (r', rows')"
    by (auto simp: markPasswordResetTokenAsUsedByToken_def dest: map_sum_snd_Inr)
  then have "rows' = map (\<lambda>x. if prt_token x = token then x\<lparr>prt_isUsed := True\<rparr> else x) rows"
    by (rule prisma_update_rows)
  with wf p p' same have "p' = (if prt_token p = token then p\<lparr>prt_isUsed := True\<rparr> else p)"
    by (intro rewritten_row[where k = prt_id]) auto
  then show ?thesis using used by simp
next
  case (DeletePasswordResetToken i)
  with run obtain r' where "prisma_delete (\<lambda>r. prt_id r = i) rows = Inr (r', rows')"
    by (auto simp: deletePasswordResetToken_def dest: map_sum_snd_Inr)
  then have "rows' = filter (\<lambda>x. \<not> prt_id x = i) rows" by (rule prisma_delete_rows)
  with p' have "p' \<in> set rows" by simp
  with wf p same have "p' = p" by (metis same_key_same_row)
  with used show ?thesis by simp
next
  case (DeletePasswordResetTokenByToken token)
  with run obtain r' where "prisma_delete (\<lambda>r. prt_token r = token) rows = Inr (r', rows')"
    by (auto simp: deletePasswordResetTokenByToken_def dest: map_sum_snd_Inr)
  then have "rows' = filter (\<lambda>x. \<not> prt_token x = token) rows" by (rule prisma_delete_rows)
  with p' have "p' \<in> set rows" by simp
  with wf p same have "p' = p" by (metis same_key_same_row)
  with used show ?thesis by simp
next
  case (DeleteAllUserPasswordResetTokens userId)
  with run p' have "p' \<in> set rows"
    by (auto simp: deleteAllUserPasswordResetTokens_def deleteMany_def)
  with wf p same have "p' = p" by (metis same_key_same_row)
  with used show ?thesis by simp
next
  case (DeleteExpiredPasswordResetTokens now)
  with run p' have "p' \<in> set rows"
    by (auto simp: deleteExpiredPasswordResetTokens_def deleteMany_def)
  with wf p same have "p' = p" by (metis same_key_same_row)
  with used show ?thesis by simp
next
  case DeleteUsedPasswordResetTokens
  with run p' have "p' \<in> set rows"
    by (auto simp: deleteUsedPasswordResetTokens_def deleteMany_def)
  with wf p same have "p' = p" by (metis same_key_same_row)
  with used show ?thesis by simp
next
  case (InvalidateAllUserPasswordResetTokens userId)
  with run have "rows' = map (\<lambda>x. if prt_userId x = userId then x\<lparr>prt_isUsed := True\<rparr> else x) rows"
    by (auto simp: invalidateAllUserPasswordResetTokens_def updateMany_def)
  with wf p p' same have "p' = (if prt_userId p = userId then p\<lparr>prt_isUsed := True\<rparr> else p)"
    by (intro rewritten_row[where k = prt_id]) auto
  then show ?thesis using used by simp
qed


lemma createRefreshToken_rows:
  "createRefreshToken users newId now data rows = Inr (r, rows') \<Longrightarrow>
     rows' = rows @ [r] \<and> rt_id r = newId \<and> newId \<notin> set (map rt_id rows) \<and>
     rt_token r = crt_token data \<and> crt_token data \<notin> set (map rt_token rows) \<and>
     rt_expiresAt r = crt_expiresAt data \<and> \<not> rt_isRevoked r"
  by (auto simp: createRefreshToken_def Let_def split: if_splits)

lemma rt_run_keeps_revoked:
  assumes wf: "distinct (map rt_id rows)" and p: "p \<in> set rows" and revoked: "rt_isRevoked p"
    and m: "\<not> rt_resets m" and run: "rt_run m rows = Inr rows'"
    and p': "p' \<in> set rows'" and same: "rt_id p' = rt_id p"
  shows "rt_isRevoked p'"
proof (cases m)
  case (CreateRefreshToken users newId now data)
  with run obtain r where "createRefreshToken users newId now data rows = Inr (r, rows')"
    by (auto dest: map_sum_snd_Inr)
  then have r: "rows' = rows @ [r]" "rt_id r = newId" "newId \<notin> set (map rt_id rows)"
    by (auto dest: createRefreshToken_rows)
  from r p same have "p' \<noteq> r" by force
  with r p' have "p' \<in> set rows" by simp
  with wf p same have "p' = p" by (metis same_key_same_row)
  with revoked show ?thesis by simp
next
  case (UpdateRefreshToken i data)
  with run obtain r' where "prisma_update (\<lambda>r. rt_id r = i) (rt_apply data) rows = Inr (r', rows')"
    by (auto simp: updateRefreshToken_def dest: map_sum_snd_Inr)
  then have "rows' = map (\<lambda>x. if rt_id x = i then rt_apply data x else x) rows"
    by (rule prisma_update_rows)
  with wf p p' same have "p' = (if rt_id p = i then rt_apply data p else p)"
    by (intro rewritten_row[where k = rt_id]) auto
  moreover from m UpdateRefreshToken have "urt_isRevoked data \<noteq> Some False" by simp
  ultimately show ?thesis using revoked by (simp add: rt_apply_revoked)
next
  case (RevokeRefreshToken i)
  with run obtain r' where
    "prisma_update (\<lambda>r. rt_id r = i) (\<lambda>r. r\<lparr>rt_isRevoked := True\<rparr>) rows = Inr (r', rows')"
    by (auto simp: revokeRefreshToken_def dest: map_sum_snd_Inr)
  then have "rows' = map (\<lambda>x. if rt_id x = i then x\<lparr>rt_isRevoked := True\<rparr> else x) rows"
    by (rule prisma_update_rows)
  with wf p p' same have "p' = (if rt_id p = i then p\<lparr>rt_isRevoked := True\<rparr> else p)"
    by (intro rewritten_row[where k = rt_id]) auto
  then show ?thesis using revoked by simp
next
  case (RevokeRefreshTokenByToken token)
  with run obtain r' where
    "prisma_update (\<lambda>r. rt_token r = token) (\<lambda>r. r\<lparr>rt_isRevoked := True\<rparr>) rows = Inr (r', rows')"
    by (auto simp: revokeRefreshTokenByToken_def dest: map_sum_snd_Inr)
  then have "rows' = map (\<lambda>x. if rt_token x = token then x\<lparr>rt_isRevoked := True\<rparr> else x) rows"
    by (rule prisma_update_rows)
  with wf p p' same have "p' = (if rt_token p = token then p\<lparr>rt_isRevoked := True\<rparr> else p)"
    by (intro rewritten_row[where k = rt_id]) auto
  then show ?thesis using revoked by simp
next
  case (DeleteRefreshToken i)
  with run obtain r' where "prisma_delete (\<lambda>r. rt_id r = i) rows = Inr (r', rows')"
    by (auto simp: deleteRefreshToken_def dest: map_sum_snd_Inr)
  then have "rows' = filter (\<lambda>x. \<not> rt_id x = i) rows" by (rule prisma_delete_rows)
  with p' have "p' \<in> set rows" by simp
  with wf p same have "p' = p" by (metis same_key_same_row)
  with revoked show ?thesis by simp
next
  case (DeleteRefreshTokenByToken token)
  with run obtain r' where "prisma_delete (\<lambda>r. rt_token r = token) rows = Inr (r', rows')"
    by (auto simp: deleteRefreshTokenByToken_def dest: map_sum_snd_Inr)
  then have "rows' = filter (\<lambda>x. \<not> rt_token x = token) rows" by (rule prisma_delete_rows)
  with p' have "p' \<in> set rows" by simp
  with wf p same have "p' = p" by (metis same_key_same_row)
  with revoked show ?thesis by simp
next
  case (DeleteAllUserRefreshTokens userId)
  with run p' have "p' \<in> set rows"
    by (auto simp: deleteAllUserRefreshTokens_def deleteMany_def)
  with wf p same have "p' = p" by (metis same_key_same_row)
  with revoked show ?thesis by simp
next
  case (DeleteExpiredRefreshTokens now)
  with run p' have "p' \<in> set rows"
    by (auto simp: deleteExpiredRefreshTokens_def deleteMany_def)
  with wf p same have "p' = p" by (metis same_key_same_row)
  with revoked show ?thesis by simp
next
  case DeleteRevokedRefreshTokens
  with run p' have "p' \<in> set rows"
    by (auto simp: deleteRevokedRefreshTokens_def deleteMany_def)
  with wf p same have "p' = p" by (metis same_key_same_row)
  with revoked show ?thesis by simp
qed


section \<open>The terminal flag under the exported mutations\<close>

text \<open>
  C2 (as amended). In a table with a primary key, a password reset token that is
  used, or a refresh token that is revoked, is still so after every exported mutation
  of its service that succeeds and keeps the row, except the generic update called
  with the flag given as \<open>false\<close>: \<^verbatim>\<open>updatePasswordResetToken\<close> and
  \<^verbatim>\<open>updateRefreshToken\<close> write whatever flag \<^verbatim>\<open>data\<close> carries.
\<close>

theorem flag_one_way:
  "(prt_wf rows \<and> p \<in> set rows \<and> prt_isUsed p \<and> \<not> prt_resets m \<and>
      prt_run m rows = Inr rows' \<and> p' \<in> set rows' \<and> prt_id p' = prt_id p \<longrightarrow> prt_isUsed p') \<and>
   (rt_wf rts \<and> q \<in> set rts \<and> rt_isRevoked q \<and> \<not> rt_resets n \<and>
      rt_run n rts = Inr rts' \<and> q' \<in> set rts' \<and> rt_id q' = rt_id q \<longrightarrow> rt_isRevoked q')"
  using prt_run_keeps_used [of rows p m rows' p'] rt_run_keeps_revoked [of rts q n rts' q']
  by (simp add: prt_wf_def rt_wf_def)

theorem flag_one_way_witness:
  "prt_run (UpdatePasswordResetToken ''p2'' \<lparr>uprt_isUsed = None, uprt_expiresAt = Some 200\<rparr>)
     [prt_a, prt_b] = Inr [prt_a, prt_b\<lparr>prt_expiresAt := 200\<rparr>] \<and>
   prt_isUsed (prt_b\<lparr>prt_expiresAt := 200\<rparr>) \<and>
   rt_run (RevokeRefreshToken ''r2'') [rt_a, rt_b] = Inr [rt_a, rt_b] \<and>
   rt_isRevoked rt_b"
  using flag_one_way [where rows = "[prt_a, prt_b]" and p = prt_b
      and m = "UpdatePasswordResetToken ''p2'' \<lparr>uprt_isUsed = None, uprt_expiresAt = Some 200\<rparr>"
      and rows' = "[prt_a, prt_b\<lparr>prt_expiresAt := 200\<rparr>]" and p' = "prt_b\<lparr>prt_expiresAt := 200\<rparr>"
      and rts = "[rt_a, rt_b]" and q = rt_b and n = "RevokeRefreshToken ''r2''"
      and rts' = "[rt_a, rt_b]" and q' = rt_b]
  by (simp add: prt_wf_def rt_wf_def updatePasswordResetToken_def revokeRefreshToken_def
      prisma_update_def prt_apply_def)

text \<open>
  The claim as stated fails: the generic update with the flag \<open>false\<close> un-marks a
  used token, and a revoked one.
\<close>

theorem flag_one_way_counterexample:
  "prt_isUsed prt_b \<and>
   updatePasswordResetToken ''p2'' \<lparr>uprt_isUsed = Some False, uprt_expiresAt = None\<rparr> [prt_a, prt_b]
     = Inr (prt_b\<lparr>prt_isUsed := False\<rparr>, [prt_a, prt_b\<lparr>prt_isUsed := False\<rparr>]) \<and>
   rt_isRevoked rt_b \<and>
   updateRefreshToken ''r2'' \<lparr>urt_isRevoked = Some False, urt_expiresAt = None\<rparr> [rt_a, rt_b]
     = Inr (rt_b\<lparr>rt_isRevoked := False\<rparr>, [rt_a, rt_b\<lparr>rt_isRevoked := False\<rparr>])"
  by (simp add: updatePasswordResetToken_def updateRefreshToken_def prisma_update_def
      prt_apply_def rt_apply_def)

section \<open>Revoking everything a user holds\<close>

text \<open>
  C3. Whatever the table held, right after \<^verbatim>\<open>invalidateAllUserPasswordResetTokens\<close>,
  \<^verbatim>\<open>deleteAllUserRefreshTokens\<close> or \<^verbatim>\<open>deleteAllUserSessions\<close> for a user, the
  matching count of that user's active rows is zero, at any clock reading.
\<close>

theorem revoke_all_leaves_none_active:
  "countActiveUserPasswordResetTokens now u (snd (invalidateAllUserPasswordResetTokens u prts)) = 0 \<and>
   countActiveUserRefreshTokens now u (snd (deleteAllUserRefreshTokens u rts)) = 0 \<and>
   countActiveUserSessions now u (snd (deleteAllUserSessions u ss)) = 0"
  by (auto simp: countActiveUserPasswordResetTokens_def invalidateAllUserPasswordResetTokens_def
      countActiveUserRefreshTokens_def deleteAllUserRefreshTokens_def
      countActiveUserSessions_def deleteAllUserSessions_def
      prisma_count_def updateMany_def deleteMany_def filter_empty_conv)

theorem revoke_all_leaves_none_active_witness:
  "countActiveUserPasswordResetTokens 50 ''u1'' [prt_a, prt_b, prt_c] = 1 \<and>
   invalidateAllUserPasswordResetTokens ''u1'' [prt_a, prt_b, prt_c] =
     (3, [prt_a\<lparr>prt_isUsed := True\<rparr>, prt_b, prt_c\<lparr>prt_isUsed := True\<rparr>]) \<and>
   countActiveUserPasswordResetTokens 50 ''u1''
     [prt_a\<lparr>prt_isUsed := True\<rparr>, prt_b, prt_c\<lparr>prt_isUsed := True\<rparr>] = 0 \<and>
   countActiveUserRefreshTokens 50 ''u1'' [rt_a, rt_b] = 1 \<and>
   countActiveUserRefreshTokens 50 ''u1'' (snd (deleteAllUserRefreshTokens ''u1'' [rt_a, rt_b])) = 0 \<and>
   countActiveUserSessions 50 ''u1'' [ses_a, ses_b] = 2 \<and>
   countActiveUserSessions 50 ''u1'' (snd (deleteAllUserSessions ''u1'' [ses_a, ses_b])) = 0"
proof -
  have i: "invalidateAllUserPasswordResetTokens ''u1'' [prt_a, prt_b, prt_c] =
     (3, [prt_a\<lparr>prt_isUsed := True\<rparr>, prt_b, prt_c\<lparr>prt_isUsed := True\<rparr>])"
    by (simp add: invalidateAllUserPasswordResetTokens_def updateMany_def)
  have b: "countActiveUserPasswordResetTokens 50 ''u1'' [prt_a, prt_b, prt_c] = 1"
    "countActiveUserRefreshTokens 50 ''u1'' [rt_a, rt_b] = 1"
    "countActiveUserSessions 50 ''u1'' [ses_a, ses_b] = 2"
    by (simp_all add: countActiveUserPasswordResetTokens_def countActiveUserRefreshTokens_def
        countActiveUserSessions_def prisma_count_def)
  from revoke_all_leaves_none_active [of 50 "''u1''" "[prt_a, prt_b, prt_c]" "[rt_a, rt_b]" "[ses_a, ses_b]"]
  show ?thesis unfolding i using i b by simp
qed

section \<open>Retiring twice\<close>

lemma prisma_update_defined:
  "r \<in> set rows \<Longrightarrow> P r \<Longrightarrow> \<exists>r1 rows1. prisma_update P f rows = Inr (r1, rows1)"
  by (cases "find P rows") (auto simp: prisma_update_def find_None_iff)

lemma find_rewritten:
  "(\<And>x. P (f x) = P x) \<Longrightarrow>
   find P (map (\<lambda>x. if P x then f x else x) rows) = map_option f (find P rows)"
  by (induction rows) auto

lemma prisma_update_twice:
  assumes P: "\<And>x. P (f x) = P x" and f: "\<And>x. f (f x) = f x"
    and u: "prisma_update P f rows = Inr (r1, rows1)"
  shows "prisma_update P f rows1 = Inr (r1, rows1)"
proof -
  from u obtain r where r: "find P rows = Some r" "r1 = f r"
    and rows1: "rows1 = map (\<lambda>x. if P x then f x else x) rows"
    by (auto simp: prisma_update_def split: option.splits)
  have "find P rows1 = Some r1"
    unfolding rows1 using r by (simp add: find_rewritten P)
  moreover have "map (\<lambda>x. if P x then f x else x) rows1 = rows1"
    unfolding rows1 by (simp add: P f)
  ultimately show ?thesis
    using f r by (simp add: prisma_update_def)
qed

lemma prisma_update_fixed:
  assumes d: "distinct (map k rows)" and r: "r \<in> set rows" and fr: "f r = r"
  shows "prisma_update (\<lambda>x. k x = k r) f rows = Inr (r, rows)"
proof -
  from d r have "find (\<lambda>x. k x = k r) rows = Some r" by (rule find_unique_key)
  moreover have "map (\<lambda>x. if k x = k r then f x else x) rows = rows"
  proof (rule map_idI)
    fix x assume "x \<in> set rows"
    with d r have "k x = k r \<Longrightarrow> x = r" by (metis same_key_same_row)
    with fr show "(if k x = k r then f x else x) = x" by auto
  qed
  ultimately show ?thesis using fr by (simp add: prisma_update_def)
qed

lemma find_Some_row:
  "find P rows = Some r \<Longrightarrow> r \<in> set rows \<and> P r"
  by (induction rows) (auto split: if_splits)

lemma prisma_update_returns:
  "prisma_update P f rows = Inr (r1, rows1) \<Longrightarrow> \<exists>r. r \<in> set rows \<and> P r \<and> r1 = f r"
  by (auto simp: prisma_update_def split: option.splits dest: find_Some_row)

text \<open>
  C4. For a row of the table, each of the four retire operations succeeds, returns
  the row with its flag set, and leaves a table on which the same call returns the
  same row and the same table again. On a table with its unique columns, retiring a
  row that is already retired succeeds and changes nothing.
\<close>

theorem retire_idempotent:
  "(p \<in> set prts \<longrightarrow>
      (\<exists>p1 prts1. markPasswordResetTokenAsUsed (prt_id p) prts = Inr (p1, prts1) \<and> prt_isUsed p1 \<and>
         markPasswordResetTokenAsUsed (prt_id p) prts1 = Inr (p1, prts1)) \<and>
      (\<exists>p1 prts1. markPasswordResetTokenAsUsedByToken (prt_token p) prts = Inr (p1, prts1) \<and>
         prt_isUsed p1 \<and> markPasswordResetTokenAsUsedByToken (prt_token p) prts1 = Inr (p1, prts1))) \<and>
   (prt_wf prts \<and> p \<in> set prts \<and> prt_isUsed p \<longrightarrow>
      markPasswordResetTokenAsUsed (prt_id p) prts = Inr (p, prts) \<and>
      markPasswordResetTokenAsUsedByToken (prt_token p) prts = Inr (p, prts)) \<and>
   (q \<in> set rts \<longrightarrow>
      (\<exists>q1 rts1. revokeRefreshToken (rt_id q) rts = Inr (q1, rts1) \<and> rt_isRevoked q1 \<and>
         revokeRefreshToken (rt_id q) rts1 = Inr (q1, rts1)) \<and>
      (\<exists>q1 rts1. revokeRefreshTokenByToken (rt_token q) rts = Inr (q1, rts1) \<and> rt_isRevoked q1 \<and>
         revokeRefreshTokenByToken (rt_token q) rts1 = Inr (q1, rts1))) \<and>
   (rt_wf rts \<and> q \<in> set rts \<and> rt_isRevoked q \<longrightarrow>
      revokeRefreshToken (rt_id q) rts = Inr (q, rts) \<and>
      revokeRefreshTokenByToken (rt_token q) rts = Inr (q, rts))"
proof (intro conjI impI)
  assume p: "p \<in> set prts"
  then obtain p1 prts1 where u: "markPasswordResetTokenAsUsed (prt_id p) prts = Inr (p1, prts1)"
    unfolding markPasswordResetTokenAsUsed_def
    using prisma_update_defined [of p prts "\<lambda>r. prt_id r = prt_id p"
        "\<lambda>r. r\<lparr>prt_isUsed := True\<rparr>"] by auto
  then have "prt_isUsed p1"
    by (auto simp: markPasswordResetTokenAsUsed_def dest!: prisma_update_returns)
  moreover from u have "markPasswordResetTokenAsUsed (prt_id p) prts1 = Inr (p1, prts1)"
    unfolding markPasswordResetTokenAsUsed_def by (intro prisma_update_twice) auto
  ultimately show "\<exists>p1 prts1. markPasswordResetTokenAsUsed (prt_id p) prts = Inr (p1, prts1) \<and>
      prt_isUsed p1 \<and> markPasswordResetTokenAsUsed (prt_id p) prts1 = Inr (p1, prts1)"
    using u by blast
next
  assume p: "p \<in> set prts"
  then obtain p1 prts1 where u: "markPasswordResetTokenAsUsedByToken (prt_token p) prts = Inr (p1, prts1)"
    unfolding markPasswordResetTokenAsUsedByToken_def
    using prisma_update_defined [of p prts "\<lambda>r. prt_token r = prt_token p"
        "\<lambda>r. r\<lparr>prt_isUsed := True\<rparr>"] by auto
  then have "prt_isUsed p1"
    by (auto simp: markPasswordResetTokenAsUsedByToken_def dest!: prisma_update_returns)
  moreover from u have "markPasswordResetTokenAsUsedByToken (prt_token p) prts1 = Inr (p1, prts1)"
    unfolding markPasswordResetTokenAsUsedByToken_def by (intro prisma_update_twice) auto
  ultimately show "\<exists>p1 prts1. markPasswordResetTokenAsUsedByToken (prt_token p) prts = Inr (p1, prts1) \<and>
      prt_isUsed p1 \<and> markPasswordResetTokenAsUsedByToken (prt_token p) prts1 = Inr (p1, prts1)"
    using u by blast
next
  assume a: "prt_wf prts \<and> p \<in> set prts \<and> prt_isUsed p"
  then show "markPasswordResetTokenAsUsed (prt_id p) prts = Inr (p, prts)"
    unfolding markPasswordResetTokenAsUsed_def
    by (intro prisma_update_fixed) (auto simp: prt_wf_def)
next
  assume a: "prt_wf prts \<and> p \<in> set prts \<and> prt_isUsed p"
  then show "markPasswordResetTokenAsUsedByToken (prt_token p) prts = Inr (p, prts)"
    unfolding markPasswordResetTokenAsUsedByToken_def
    by (intro prisma_update_fixed) (auto simp: prt_wf_def)
next
  assume q: "q \<in> set rts"
  then obtain q1 rts1 where u: "revokeRefreshToken (rt_id q) rts = Inr (q1, rts1)"
    unfolding revokeRefreshToken_def
    using prisma_update_defined [of q rts "\<lambda>r. rt_id r = rt_id q"
        "\<lambda>r. r\<lparr>rt_isRevoked := True\<rparr>"] by auto
  then have "rt_isRevoked q1"
    by (auto simp: revokeRefreshToken_def dest!: prisma_update_returns)
  moreover from u have "revokeRefreshToken (rt_id q) rts1 = Inr (q1, rts1)"
    unfolding revokeRefreshToken_def by (intro prisma_update_twice) auto
  ultimately show "\<exists>q1 rts1. revokeRefreshToken (rt_id q) rts = Inr (q1, rts1) \<and> rt_isRevoked q1 \<and>
      revokeRefreshToken (rt_id q) rts1 = Inr (q1, rts1)"
    using u by blast
next
  assume q: "q \<in> set rts"
  then obtain q1 rts1 where u: "revokeRefreshTokenByToken (rt_token q) rts = Inr (q1, rts1)"
    unfolding revokeRefreshTokenByToken_def
    using prisma_update_defined [of q rts "\<lambda>r. rt_token r = rt_token q"
        "\<lambda>r. r\<lparr>rt_isRevoked := True\<rparr>"] by auto
  then have "rt_isRevoked q1"
    by (auto simp: revokeRefreshTokenByToken_def dest!: prisma_update_returns)
  moreover from u have "revokeRefreshTokenByToken (rt_token q) rts1 = Inr (q1, rts1)"
    unfolding revokeRefreshTokenByToken_def by (intro prisma_update_twice) auto
  ultimately show "\<exists>q1 rts1. revokeRefreshTokenByToken (rt_token q) rts = Inr (q1, rts1) \<and>
      rt_isRevoked q1 \<and> revokeRefreshTokenByToken (rt_token q) rts1 = Inr (q1, rts1)"
    using u by blast
next
  assume a: "rt_wf rts \<and> q \<in> set rts \<and> rt_isRevoked q"
  then show "revokeRefreshToken (rt_id q) rts = Inr (q, rts)"
    unfolding revokeRefreshToken_def
    by (intro prisma_update_fixed) (auto simp: rt_wf_def)
next
  assume a: "rt_wf rts \<and> q \<in> set rts \<and> rt_isRevoked q"
  then show "revokeRefreshTokenByToken (rt_token q) rts = Inr (q, rts)"
    unfolding revokeRefreshTokenByToken_def
    by (intro prisma_update_fixed) (auto simp: rt_wf_def)
qed


theorem retire_idempotent_witness:
  "markPasswordResetTokenAsUsed ''p1'' [prt_a, prt_b] =
     Inr (prt_a\<lparr>prt_isUsed := True\<rparr>, [prt_a\<lparr>prt_isUsed := True\<rparr>, prt_b]) \<and>
   markPasswordResetTokenAsUsed ''p1'' [prt_a\<lparr>prt_isUsed := True\<rparr>, prt_b] =
     Inr (prt_a\<lparr>prt_isUsed := True\<rparr>, [prt_a\<lparr>prt_isUsed := True\<rparr>, prt_b]) \<and>
   markPasswordResetTokenAsUsed ''p2'' [prt_a, prt_b] = Inr (prt_b, [prt_a, prt_b]) \<and>
   markPasswordResetTokenAsUsedByToken ''t2'' [prt_a, prt_b] = Inr (prt_b, [prt_a, prt_b]) \<and>
   revokeRefreshToken ''r1'' [rt_a, rt_b] =
     Inr (rt_a\<lparr>rt_isRevoked := True\<rparr>, [rt_a\<lparr>rt_isRevoked := True\<rparr>, rt_b]) \<and>
   revokeRefreshToken ''r1'' [rt_a\<lparr>rt_isRevoked := True\<rparr>, rt_b] =
     Inr (rt_a\<lparr>rt_isRevoked := True\<rparr>, [rt_a\<lparr>rt_isRevoked := True\<rparr>, rt_b]) \<and>
   revokeRefreshToken ''r2'' [rt_a, rt_b] = Inr (rt_b, [rt_a, rt_b]) \<and>
   revokeRefreshTokenByToken ''t2'' [rt_a, rt_b] = Inr (rt_b, [rt_a, rt_b])"
proof -
  have m: "markPasswordResetTokenAsUsed ''p1'' [prt_a, prt_b] =
     Inr (prt_a\<lparr>prt_isUsed := True\<rparr>, [prt_a\<lparr>prt_isUsed := True\<rparr>, prt_b])"
    by (simp add: markPasswordResetTokenAsUsed_def prisma_update_def)
  have r: "revokeRefreshToken ''r1'' [rt_a, rt_b] =
     Inr (rt_a\<lparr>rt_isRevoked := True\<rparr>, [rt_a\<lparr>rt_isRevoked := True\<rparr>, rt_b])"
    by (simp add: revokeRefreshToken_def prisma_update_def)
  show ?thesis
    using m r
      retire_idempotent [where p = prt_a and prts = "[prt_a, prt_b]" and q = rt_a and rts = "[rt_a, rt_b]"]
      retire_idempotent [where p = prt_b and prts = "[prt_a, prt_b]" and q = rt_b and rts = "[rt_a, rt_b]"]
    by (simp add: prt_wf_def rt_wf_def)
qed

section \<open>The sweeps\<close>

lemma deleteMany_kept:
  assumes "\<And>x. keep x = (\<not> P x)"
  shows "deleteMany P rows = (length rows - length (filter keep rows), filter keep rows)"
proof -
  from assms have k: "keep = (\<lambda>x. \<not> P x)" by auto
  have "length (filter P rows) = length rows - length (filter (\<lambda>x. \<not> P x) rows)"
    using sum_length_filter_compl [of P rows] by simp
  then show ?thesis by (simp add: deleteMany_def k)
qed

text \<open>
  C5. The table after an expired-sweep is the table before, in order, without the
  rows that expire strictly before the call's \<open>now\<close>: every row with
  \<open>now \<le> expiresAt\<close> stays as it was. The table after a retired-sweep is the table
  before without the rows whose flag is set: every row with the flag \<open>false\<close> stays
  as it was. The count is the number of rows that went.
\<close>

theorem sweeps_keep_live_rows:
  "deleteExpiredPasswordResetTokens now prts =
     (length prts - length (filter (\<lambda>r. now \<le> prt_expiresAt r) prts),
      filter (\<lambda>r. now \<le> prt_expiresAt r) prts) \<and>
   deleteExpiredRefreshTokens now rts =
     (length rts - length (filter (\<lambda>r. now \<le> rt_expiresAt r) rts),
      filter (\<lambda>r. now \<le> rt_expiresAt r) rts) \<and>
   deleteExpiredSessions now ss =
     (length ss - length (filter (\<lambda>r. now \<le> s_expiresAt r) ss),
      filter (\<lambda>r. now \<le> s_expiresAt r) ss) \<and>
   deleteUsedPasswordResetTokens prts =
     (length prts - length (filter (\<lambda>r. \<not> prt_isUsed r) prts), filter (\<lambda>r. \<not> prt_isUsed r) prts) \<and>
   deleteRevokedRefreshTokens rts =
     (length rts - length (filter (\<lambda>r. \<not> rt_isRevoked r) rts), filter (\<lambda>r. \<not> rt_isRevoked r) rts)"
proof (intro conjI)
  show "deleteExpiredPasswordResetTokens now prts =
     (length prts - length (filter (\<lambda>r. now \<le> prt_expiresAt r) prts),
      filter (\<lambda>r. now \<le> prt_expiresAt r) prts)"
    unfolding deleteExpiredPasswordResetTokens_def by (rule deleteMany_kept) auto
  show "deleteExpiredRefreshTokens now rts =
     (length rts - length (filter (\<lambda>r. now \<le> rt_expiresAt r) rts),
      filter (\<lambda>r. now \<le> rt_expiresAt r) rts)"
    unfolding deleteExpiredRefreshTokens_def by (rule deleteMany_kept) auto
  show "deleteExpiredSessions now ss =
     (length ss - length (filter (\<lambda>r. now \<le> s_expiresAt r) ss),
      filter (\<lambda>r. now \<le> s_expiresAt r) ss)"
    unfolding deleteExpiredSessions_def by (rule deleteMany_kept) auto
  show "deleteUsedPasswordResetTokens prts =
     (length prts - length (filter (\<lambda>r. \<not> prt_isUsed r) prts), filter (\<lambda>r. \<not> prt_isUsed r) prts)"
    unfolding deleteUsedPasswordResetTokens_def by (rule deleteMany_kept) auto
  show "deleteRevokedRefreshTokens rts =
     (length rts - length (filter (\<lambda>r. \<not> rt_isRevoked r) rts), filter (\<lambda>r. \<not> rt_isRevoked r) rts)"
    unfolding deleteRevokedRefreshTokens_def by (rule deleteMany_kept) auto
qed

theorem sweeps_keep_live_rows_witness:
  "deleteExpiredPasswordResetTokens 30 [prt_a, prt_b, prt_c] = (0, [prt_a, prt_b, prt_c]) \<and>
   deleteExpiredPasswordResetTokens 31 [prt_a, prt_b, prt_c] = (1, [prt_a, prt_b]) \<and>
   deleteExpiredRefreshTokens 31 [rt_a, rt_b, rt_c] = (1, [rt_a, rt_b]) \<and>
   deleteExpiredSessions 100 [ses_a, ses_b] = (0, [ses_a, ses_b]) \<and>
   deleteUsedPasswordResetTokens [prt_a, prt_b, prt_c] = (1, [prt_a, prt_c]) \<and>
   deleteRevokedRefreshTokens [rt_a, rt_b, rt_c] = (1, [rt_a, rt_c])"
  using sweeps_keep_live_rows [of 30 "[prt_a, prt_b, prt_c]" "[rt_a, rt_b, rt_c]" "[ses_a, ses_b]"]
    sweeps_keep_live_rows [of 31 "[prt_a, prt_b, prt_c]" "[rt_a, rt_b, rt_c]" "[ses_a, ses_b]"]
    sweeps_keep_live_rows [of 100 "[prt_a, prt_b, prt_c]" "[rt_a, rt_b, rt_c]" "[ses_a, ses_b]"]
  by simp

section \<open>What revoke-all reports\<close>

lemma map_fixes_iff: "(map g rows = rows) = (\<forall>x\<in>set rows. g x = x)"
  by (induction rows) auto

lemma mark_used_fixes_iff: "(r\<lparr>prt_isUsed := True\<rparr> = r) = prt_isUsed r"
  by (cases r) auto

text \<open>
  C6 (as amended). \<^verbatim>\<open>invalidateAllUserPasswordResetTokens\<close> matches on the owner
  alone: its count is the number of rows the user owns, whatever their state; it
  leaves the table as it was exactly when every row of the user is already used; and
  for a user who owns no row it reports zero and changes nothing.
\<close>

theorem invalidate_all_rows_owned:
  "fst (invalidateAllUserPasswordResetTokens u prts) = length (filter (\<lambda>r. prt_userId r = u) prts) \<and>
   (snd (invalidateAllUserPasswordResetTokens u prts) = prts) =
     (\<forall>r\<in>set prts. prt_userId r = u \<longrightarrow> prt_isUsed r) \<and>
   (u \<notin> set (map prt_userId prts) \<longrightarrow> invalidateAllUserPasswordResetTokens u prts = (0, prts))"
proof (intro conjI impI)
  show "fst (invalidateAllUserPasswordResetTokens u prts) = length (filter (\<lambda>r. prt_userId r = u) prts)"
    by (simp add: invalidateAllUserPasswordResetTokens_def updateMany_def)
  show "(snd (invalidateAllUserPasswordResetTokens u prts) = prts) =
     (\<forall>r\<in>set prts. prt_userId r = u \<longrightarrow> prt_isUsed r)"
    by (simp add: invalidateAllUserPasswordResetTokens_def updateMany_def map_fixes_iff
        mark_used_fixes_iff)
  assume "u \<notin> set (map prt_userId prts)"
  then have "\<forall>r\<in>set prts. prt_userId r \<noteq> u" by auto
  then show "invalidateAllUserPasswordResetTokens u prts = (0, prts)"
    by (simp add: invalidateAllUserPasswordResetTokens_def updateMany_def map_fixes_iff
        filter_empty_conv)
qed

theorem invalidate_all_rows_owned_witness:
  "invalidateAllUserPasswordResetTokens ''u2'' [prt_a, prt_b, prt_c] = (0, [prt_a, prt_b, prt_c]) \<and>
   invalidateAllUserPasswordResetTokens ''u1'' [prt_b] = (1, [prt_b]) \<and>
   fst (invalidateAllUserPasswordResetTokens ''u1'' [prt_a, prt_b, prt_c]) = 3 \<and>
   snd (invalidateAllUserPasswordResetTokens ''u1'' [prt_a, prt_b, prt_c]) \<noteq> [prt_a, prt_b, prt_c]"
  using invalidate_all_rows_owned [of "''u2''" "[prt_a, prt_b, prt_c]"]
    invalidate_all_rows_owned [of "''u1''" "[prt_b]"]
    invalidate_all_rows_owned [of "''u1''" "[prt_a, prt_b, prt_c]"]
  by (simp add: prod_eq_iff)

text \<open>
  The claim as stated fails: a user whose only token is expired and unused has no
  active token, yet the call rewrites that row and reports one.
\<close>

theorem invalidate_all_noop_counterexample:
  "countActiveUserPasswordResetTokens 50 ''u1'' [prt_c] = 0 \<and>
   invalidateAllUserPasswordResetTokens ''u1'' [prt_c] = (1, [prt_c\<lparr>prt_isUsed := True\<rparr>])"
  by (simp add: countActiveUserPasswordResetTokens_def prisma_count_def
      invalidateAllUserPasswordResetTokens_def updateMany_def)

section \<open>Deleting a role\<close>








section \<open>The order of the per-user listings\<close>

lemma orderByDesc_sorted:
  "sorted_wrt (\<lambda>a b. key a \<ge> key b) (orderByDesc key rows)"
proof -
  have "sorted (map (\<lambda>r. - key r) (sort_key (\<lambda>r. - key r) rows))" by (rule sorted_sort_key)
  then show ?thesis by (simp add: orderByDesc_def sorted_map)
qed

lemma findMany_sorted: "sorted_wrt (\<lambda>a b. key a \<ge> key b) (findMany P key rows)"
  by (simp add: findMany_def orderByDesc_sorted)

lemma findMany_mset: "mset (findMany P key rows) = mset (filter P rows)"
  by (simp add: findMany_def orderByDesc_def)

text \<open>
  C8 (as amended). \<^verbatim>\<open>getUserRefreshTokens\<close> and \<^verbatim>\<open>getUserPasswordResetTokens\<close>
  return exactly the user's rows, newest first by creation time.
  \<^verbatim>\<open>getUserSessions\<close> and \<^verbatim>\<open>getActiveUserSessions\<close> return exactly the user's
  (unexpired) sessions, ordered by last activity, most recent first.
\<close>

theorem listings_order:
  "sorted_wrt (\<lambda>a b. rt_createdAt a \<ge> rt_createdAt b) (getUserRefreshTokens u rts) \<and>
   mset (getUserRefreshTokens u rts) = mset (filter (\<lambda>r. rt_userId r = u) rts) \<and>
   sorted_wrt (\<lambda>a b. prt_createdAt a \<ge> prt_createdAt b) (getUserPasswordResetTokens u prts) \<and>
   mset (getUserPasswordResetTokens u prts) = mset (filter (\<lambda>r. prt_userId r = u) prts) \<and>
   sorted_wrt (\<lambda>a b. s_lastActivityAt a \<ge> s_lastActivityAt b) (getUserSessions u ss) \<and>
   mset (getUserSessions u ss) = mset (filter (\<lambda>r. s_userId r = u) ss) \<and>
   sorted_wrt (\<lambda>a b. s_lastActivityAt a \<ge> s_lastActivityAt b) (getActiveUserSessions now u ss) \<and>
   mset (getActiveUserSessions now u ss) =
     mset (filter (\<lambda>r. s_userId r = u \<and> s_expiresAt r > now) ss)"
  by (simp add: getUserRefreshTokens_def getUserPasswordResetTokens_def getUserSessions_def
      getActiveUserSessions_def findMany_sorted findMany_mset)

theorem listings_order_witness:
  "getUserRefreshTokens ''u1'' [rt_a, rt_b, rt_c] = [rt_b, rt_a, rt_c] \<and>
   getUserPasswordResetTokens ''u1'' [prt_a, prt_b, prt_c] = [prt_b, prt_a, prt_c] \<and>
   getUserSessions ''u1'' [ses_a, ses_b] = [ses_b, ses_a] \<and>
   getActiveUserSessions 50 ''u1'' [ses_a, ses_b] = [ses_b, ses_a] \<and>
   sorted_wrt (\<lambda>a b. rt_createdAt a \<ge> rt_createdAt b) [rt_b, rt_a, rt_c] \<and>
   sorted_wrt (\<lambda>a b. s_lastActivityAt a \<ge> s_lastActivityAt b) [ses_b, ses_a]"
proof -
  have e: "getUserRefreshTokens ''u1'' [rt_a, rt_b, rt_c] = [rt_b, rt_a, rt_c]"
    "getUserPasswordResetTokens ''u1'' [prt_a, prt_b, prt_c] = [prt_b, prt_a, prt_c]"
    "getUserSessions ''u1'' [ses_a, ses_b] = [ses_b, ses_a]"
    "getActiveUserSessions 50 ''u1'' [ses_a, ses_b] = [ses_b, ses_a]"
    by (simp_all add: getUserRefreshTokens_def getUserPasswordResetTokens_def getUserSessions_def
        getActiveUserSessions_def findMany_def orderByDesc_def)
  from listings_order [of "''u1''" "[rt_a, rt_b, rt_c]" "[prt_a, prt_b, prt_c]" "[ses_a, ses_b]" 50]
  show ?thesis unfolding e using e by simp
qed

text \<open>
  The claim as stated fails for sessions: once the older of two sessions has been
  active again, both session listings put it first, ahead of the newer one.
\<close>

theorem listings_order_counterexample:
  "updateSessionActivity 30 ''t1'' [ses_a, ses_b] =
     Inr (ses_a\<lparr>s_lastActivityAt := 30\<rparr>, [ses_a\<lparr>s_lastActivityAt := 30\<rparr>, ses_b]) \<and>
   getUserSessions ''u1'' [ses_a\<lparr>s_lastActivityAt := 30\<rparr>, ses_b] =
     [ses_a\<lparr>s_lastActivityAt := 30\<rparr>, ses_b] \<and>
   getActiveUserSessions 50 ''u1'' [ses_a\<lparr>s_lastActivityAt := 30\<rparr>, ses_b] =
     [ses_a\<lparr>s_lastActivityAt := 30\<rparr>, ses_b] \<and>
   s_createdAt (ses_a\<lparr>s_lastActivityAt := 30\<rparr>) < s_createdAt ses_b"
  by (simp add: updateSessionActivity_def prisma_update_def getUserSessions_def
      getActiveUserSessions_def findMany_def orderByDesc_def)

section \<open>The pagination envelope\<close>

lemma to_double_small: "\<bar>n\<bar> \<le> 2 ^ 53 \<Longrightarrow> to_double n = n"
  by (simp add: to_double_def)

lemma narrow32_small: "0 \<le> n \<Longrightarrow> n < 2 ^ 31 \<Longrightarrow> narrow32 n = nat n"
  by (simp add: narrow32_def)

lemma findManyPage_window:
  assumes "0 \<le> skip" "skip < 2 ^ 31" "0 \<le> tk" "tk < 2 ^ 31"
  shows "findManyPage P key skip tk rows = Inr (take (nat tk) (drop (nat skip) (findMany P key rows)))"
proof -
  from assms have "fits_int64 skip" "fits_int64 tk" by (simp_all add: fits_int64_def)
  with assms show ?thesis
    by (simp add: findManyPage_def findMany_def Let_def narrow32_small)
qed

lemma page_skip:
  assumes "1 \<le> page" "1 \<le> limit" "(page - 1) * limit < 2 ^ 31"
  shows "to_double (to_double (page - 1) * limit) = (page - 1) * limit"
    and "0 \<le> (page - 1) * limit"
proof -
  from assms have nn: "0 \<le> page - 1" by simp
  with assms show s: "0 \<le> (page - 1) * limit" by simp
  from nn assms(2) have "(page - 1) * 1 \<le> (page - 1) * limit" by (intro mult_left_mono) simp_all
  with assms(3) nn have "\<bar>page - 1\<bar> \<le> 2 ^ 53" by simp
  then have "to_double (page - 1) = page - 1" by (rule to_double_small)
  moreover from s assms(3) have "\<bar>(page - 1) * limit\<bar> \<le> 2 ^ 53" by simp
  ultimately show "to_double (to_double (page - 1) * limit) = (page - 1) * limit"
    by (simp add: to_double_small)
qed

lemma math_ceil_div_pos:
  "1 \<le> limit \<Longrightarrow> math_ceil_div tot limit = Num \<lceil>real tot / real_of_int limit\<rceil>"
  by (simp add: math_ceil_div_def)

lemma findMany_length: "length (findMany P key rows) = length (filter P rows)"
  by (simp add: findMany_def orderByDesc_def)

lemma paged:
  assumes "1 \<le> page" "1 \<le> limit" "limit < 2 ^ 31" "(page - 1) * limit < 2 ^ 31"
  shows "(case findManyPage W key (to_double (to_double (page - 1) * limit)) limit rows of
            Inl e \<Rightarrow> Inl e
          | Inr items \<Rightarrow>
              Inr (items, \<lparr>pg_page = page, pg_limit = limit, pg_total = prisma_count W rows,
                           pg_pages = math_ceil_div (prisma_count W rows) limit\<rparr>)) =
         Inr (take (nat limit) (drop (nat ((page - 1) * limit)) (findMany W key rows)),
              \<lparr>pg_page = page, pg_limit = limit, pg_total = length (filter W rows),
               pg_pages = Num \<lceil>real (length (filter W rows)) / real_of_int limit\<rceil>\<rparr>)"
proof -
  from assms have "findManyPage W key ((page - 1) * limit) limit rows =
      Inr (take (nat limit) (drop (nat ((page - 1) * limit)) (findMany W key rows)))"
    by (intro findManyPage_window page_skip(2)) simp_all
  with assms show ?thesis
    by (simp add: page_skip(1) prisma_count_def math_ceil_div_pos)
qed

lemma user_where_no_search:
  "\<not> user_searches filters \<Longrightarrow> user_where c filters = user_where c' filters"
  by (rule ext) (auto simp: user_where_def user_searches_def split: option.splits)

lemma getUsers_paged:
  assumes b: "1 \<le> page" "1 \<le> limit" "limit < 2 ^ 31" "(page - 1) * limit < 2 ^ 31"
    and s: "insensitive = Some contains \<or> \<not> user_searches filters"
  shows "getUsers insensitive page limit filters us =
          Inr (take (nat limit) (drop (nat ((page - 1) * limit)) (findMany (user_where contains filters) u_createdAt us)),
               \<lparr>pg_page = page, pg_limit = limit, pg_total = length (filter (user_where contains filters) us),
                pg_pages = Num \<lceil>real (length (filter (user_where contains filters) us)) / real_of_int limit\<rceil>\<rparr>)"
proof -
  let ?c = "case insensitive of None \<Rightarrow> (\<lambda>c q. False) | Some c \<Rightarrow> c"
  from s have w: "user_where ?c filters = user_where contains filters"
    by (auto intro: user_where_no_search)
  from s have g: "\<not> (insensitive = None \<and> user_searches filters)" by auto
  show ?thesis
    unfolding getUsers_def Let_def w using g by (simp add: paged [OF b])
qed

text \<open>
  C9 (as amended). For a page \<open>p \<ge> 1\<close> and a limit \<open>L \<ge> 1\<close> such that \<open>L\<close> and the
  skip \<open>(p - 1) * L\<close> are below \<open>2^31\<close>, where the client passes them as they are, each of
  the five paginated listings (users, password reset tokens, refresh tokens, sessions,
  audit logs) succeeds and returns the \<open>L\<close> rows that follow the first \<open>(p - 1) * L\<close> of
  the matching rows in the listing's order, with the pagination \<open>page = p\<close>,
  \<open>limit = L\<close>, \<open>total = T\<close>, the number of matching rows, and \<open>pages = \<lceil>T / L\<rceil>\<close>; for the
  users this is for a call without a search string, or a provider that has the
  insensitive mode. In particular \<^verbatim>\<open>getUsers\<close> with page 2 and limit 10 over 25
  matching rows returns 10 items and the pagination
  \<open>page = 2, limit = 10, total = 25, pages = 3\<close>.
\<close>

theorem pagination_envelope:
  "(1 \<le> page \<and> 1 \<le> limit \<and> limit < 2 ^ 31 \<and> (page - 1) * limit < 2 ^ 31 \<longrightarrow>
      (insensitive = Some contains \<or> \<not> user_searches filters \<longrightarrow>
         getUsers insensitive page limit filters us =
           Inr (take (nat limit) (drop (nat ((page - 1) * limit)) (findMany (user_where contains filters) u_createdAt us)),
                \<lparr>pg_page = page, pg_limit = limit, pg_total = length (filter (user_where contains filters) us),
                 pg_pages = Num \<lceil>real (length (filter (user_where contains filters) us)) / real_of_int limit\<rceil>\<rparr>)) \<and>
      getPasswordResetTokens now page limit pfilters prts =
        Inr (take (nat limit) (drop (nat ((page - 1) * limit)) (findMany (prt_where now pfilters) prt_createdAt prts)),
             \<lparr>pg_page = page, pg_limit = limit, pg_total = length (filter (prt_where now pfilters) prts),
              pg_pages = Num \<lceil>real (length (filter (prt_where now pfilters) prts)) / real_of_int limit\<rceil>\<rparr>) \<and>
      getRefreshTokens now page limit rfilters rts =
        Inr (take (nat limit) (drop (nat ((page - 1) * limit)) (findMany (rt_where now rfilters) rt_createdAt rts)),
             \<lparr>pg_page = page, pg_limit = limit, pg_total = length (filter (rt_where now rfilters) rts),
              pg_pages = Num \<lceil>real (length (filter (rt_where now rfilters) rts)) / real_of_int limit\<rceil>\<rparr>) \<and>
      getSessions now page limit sfilters ss =
        Inr (take (nat limit) (drop (nat ((page - 1) * limit)) (findMany (session_where now sfilters) s_lastActivityAt ss)),
             \<lparr>pg_page = page, pg_limit = limit, pg_total = length (filter (session_where now sfilters) ss),
              pg_pages = Num \<lceil>real (length (filter (session_where now sfilters) ss)) / real_of_int limit\<rceil>\<rparr>) \<and>
      getAuditLogs page limit afilters logs =
        Inr (take (nat limit) (drop (nat ((page - 1) * limit)) (findMany (audit_where afilters) a_createdAt logs)),
             \<lparr>pg_page = page, pg_limit = limit, pg_total = length (filter (audit_where afilters) logs),
              pg_pages = Num \<lceil>real (length (filter (audit_where afilters) logs)) / real_of_int limit\<rceil>\<rparr>)) \<and>
   ((insensitive = Some contains \<or> \<not> user_searches filters) \<and>
      length (filter (user_where contains filters) us) = 25 \<longrightarrow>
      (\<exists>items. getUsers insensitive 2 10 filters us =
          Inr (items, \<lparr>pg_page = 2, pg_limit = 10, pg_total = 25, pg_pages = Num 3\<rparr>) \<and>
        length items = 10))"
proof (intro conjI impI)
  assume a: "1 \<le> page \<and> 1 \<le> limit \<and> limit < 2 ^ 31 \<and> (page - 1) * limit < 2 ^ 31"
    and s: "insensitive = Some contains \<or> \<not> user_searches filters"
  from a have b: "1 \<le> page" "1 \<le> limit" "limit < 2 ^ 31" "(page - 1) * limit < 2 ^ 31"
    by simp_all
  from b s show "getUsers insensitive page limit filters us =
            Inr (take (nat limit) (drop (nat ((page - 1) * limit)) (findMany (user_where contains filters) u_createdAt us)),
                 \<lparr>pg_page = page, pg_limit = limit, pg_total = length (filter (user_where contains filters) us),
                  pg_pages = Num \<lceil>real (length (filter (user_where contains filters) us)) / real_of_int limit\<rceil>\<rparr>)"
    by (rule getUsers_paged)
next
  assume a: "1 \<le> page \<and> 1 \<le> limit \<and> limit < 2 ^ 31 \<and> (page - 1) * limit < 2 ^ 31"
  then have b: "1 \<le> page" "1 \<le> limit" "limit < 2 ^ 31" "(page - 1) * limit < 2 ^ 31"
    by simp_all
  show "getPasswordResetTokens now page limit pfilters prts =
        Inr (take (nat limit) (drop (nat ((page - 1) * limit)) (findMany (prt_where now pfilters) prt_createdAt prts)),
             \<lparr>pg_page = page, pg_limit = limit, pg_total = length (filter (prt_where now pfilters) prts),
              pg_pages = Num \<lceil>real (length (filter (prt_where now pfilters) prts)) / real_of_int limit\<rceil>\<rparr>)"
    unfolding getPasswordResetTokens_def Let_def by (rule paged [OF b])
  show "getRefreshTokens now page limit rfilters rts =
        Inr (take (nat limit) (drop (nat ((page - 1) * limit)) (findMany (rt_where now rfilters) rt_createdAt rts)),
             \<lparr>pg_page = page, pg_limit = limit, pg_total = length (filter (rt_where now rfilters) rts),
              pg_pages = Num \<lceil>real (length (filter (rt_where now rfilters) rts)) / real_of_int limit\<rceil>\<rparr>)"
    unfolding getRefreshTokens_def Let_def by (rule paged [OF b])
  show "getSessions now page limit sfilters ss =
        Inr (take (nat limit) (drop (nat ((page - 1) * limit)) (findMany (session_where now sfilters) s_lastActivityAt ss)),
             \<lparr>pg_page = page, pg_limit = limit, pg_total = length (filter (session_where now sfilters) ss),
              pg_pages = Num \<lceil>real (length (filter (session_where now sfilters) ss)) / real_of_int limit\<rceil>\<rparr>)"
    unfolding getSessions_def Let_def by (rule paged [OF b])
  show "getAuditLogs page limit afilters logs =
        Inr (take (nat limit) (drop (nat ((page - 1) * limit)) (findMany (audit_where afilters) a_createdAt logs)),
             \<lparr>pg_page = page, pg_limit = limit, pg_total = length (filter (audit_where afilters) logs),
              pg_pages = Num \<lceil>real (length (filter (audit_where afilters) logs)) / real_of_int limit\<rceil>\<rparr>)"
    unfolding getAuditLogs_def Let_def by (rule paged [OF b])
next
  assume h: "(insensitive = Some contains \<or> \<not> user_searches filters) \<and>
      length (filter (user_where contains filters) us) = 25"
  then have "getUsers insensitive 2 10 filters us =
      Inr (take (nat 10) (drop (nat ((2 - 1) * 10)) (findMany (user_where contains filters) u_createdAt us)),
           \<lparr>pg_page = 2, pg_limit = 10, pg_total = length (filter (user_where contains filters) us),
            pg_pages = Num \<lceil>real (length (filter (user_where contains filters) us)) / real_of_int 10\<rceil>\<rparr>)"
    by (intro getUsers_paged) simp_all
  with h have "getUsers insensitive 2 10 filters us =
      Inr (take 10 (drop 10 (findMany (user_where contains filters) u_createdAt us)),
           \<lparr>pg_page = 2, pg_limit = 10, pg_total = 25, pg_pages = Num 3\<rparr>)"
    by simp
  moreover have "length (take 10 (drop 10 (findMany (user_where contains filters) u_createdAt us))) = 10"
    using h by (simp add: findMany_length)
  ultimately show "\<exists>items. getUsers insensitive 2 10 filters us =
          Inr (items, \<lparr>pg_page = 2, pg_limit = 10, pg_total = 25, pg_pages = Num 3\<rparr>) \<and>
        length items = 10"
    by blast
qed

theorem pagination_envelope_witness:
  "getUsers None 2 10 None (map user_n [0..<25]) =
     Inr (map user_n (rev [5..<15]),
          \<lparr>pg_page = 2, pg_limit = 10, pg_total = 25, pg_pages = Num 3\<rparr>) \<and>
   length (map user_n (rev [5..<15])) = 10 \<and>
   getUsers None 3 10 None (map user_n [0..<25]) =
     Inr (map user_n (rev [0..<5]),
          \<lparr>pg_page = 3, pg_limit = 10, pg_total = 25, pg_pages = Num 3\<rparr>) \<and>
   getPasswordResetTokens 50 1 2
       (Some \<lparr>pf_userId = Some ''u1'', pf_isUsed = None, pf_isExpired = None\<rparr>) [prt_a, prt_b, prt_c] =
     Inr ([prt_b, prt_a], \<lparr>pg_page = 1, pg_limit = 2, pg_total = 3, pg_pages = Num 2\<rparr>)"
proof -
  have e: "getUsers None 2 10 None (map user_n [0..<25]) =
     Inr (map user_n (rev [5..<15]),
          \<lparr>pg_page = 2, pg_limit = 10, pg_total = 25, pg_pages = Num 3\<rparr>)"
    by code_simp
  have f: "getUsers None 3 10 None (map user_n [0..<25]) =
     Inr (map user_n (rev [0..<5]),
          \<lparr>pg_page = 3, pg_limit = 10, pg_total = 25, pg_pages = Num 3\<rparr>)"
    by code_simp
  have g: "getPasswordResetTokens 50 1 2
       (Some \<lparr>pf_userId = Some ''u1'', pf_isUsed = None, pf_isExpired = None\<rparr>) [prt_a, prt_b, prt_c] =
     Inr ([prt_b, prt_a], \<lparr>pg_page = 1, pg_limit = 2, pg_total = 3, pg_pages = Num 2\<rparr>)"
    by code_simp
  have t: "(None = Some (\<lambda>c q. False) \<or> \<not> user_searches None) \<and>
      length (filter (user_where (\<lambda>c q. False) None) (map user_n [0..<25])) = 25"
    by (simp add: user_where_def user_searches_def)
  from pagination_envelope [where page = 3 and limit = 10 and insensitive = None
      and contains = "\<lambda>c q. False" and filters = None and us = "map user_n [0..<25]"] t
  have "\<exists>items. getUsers None 2 10 None (map user_n [0..<25]) =
          Inr (items, \<lparr>pg_page = 2, pg_limit = 10, pg_total = 25, pg_pages = Num 3\<rparr>) \<and>
        length items = 10"
    by blast
  with e f g show ?thesis by simp
qed

text \<open>
  The claim as stated fails: with page 1 and the limit \<open>2^63\<close>, which does not fit the
  client's integer, the listings throw and return no pagination.
\<close>

theorem pagination_envelope_counterexample:
  "getPasswordResetTokens 50 1 9223372036854775808 None [prt_a, prt_b, prt_c] =
     Inl ValidationError \<and>
   getUsers None 1 9223372036854775808 None [user_a] = Inl ValidationError"
  by (simp add: getPasswordResetTokens_def getUsers_def user_searches_def Let_def
      findManyPage_def fits_int64_def to_double_def)

section \<open>The instant of expiry\<close>

lemma findMany_set: "set (findMany P key rows) = {r \<in> set rows. P r}"
  by (auto simp: findMany_def orderByDesc_def)

lemma findManyPage_within:
  assumes "findManyPage P key skip tk rows = Inr items"
  shows "set items \<subseteq> {r \<in> set rows. P r}"
proof -
  let ?xs = "orderByDesc key (filter P rows)"
  have xs: "set ?xs = {r \<in> set rows. P r}" by (auto simp: orderByDesc_def)
  from assms have "items = take (narrow32 tk) (drop (narrow32 skip) ?xs) \<or>
      items = rev (take (narrow32 (- tk)) (drop (narrow32 skip) (rev ?xs)))"
    by (auto simp: findManyPage_def Let_def split: if_splits)
  then have "set items \<subseteq> set ?xs"
  proof
    assume "items = take (narrow32 tk) (drop (narrow32 skip) ?xs)"
    then show ?thesis by (metis set_take_subset set_drop_subset subset_trans)
  next
    assume "items = rev (take (narrow32 (- tk)) (drop (narrow32 skip) (rev ?xs)))"
    then have "set items \<subseteq> set (rev ?xs)"
      by (metis set_rev set_take_subset set_drop_subset subset_trans)
    then show ?thesis by simp
  qed
  with xs show ?thesis by simp
qed

lemma first_page_of_all:
  assumes n: "length rows < 2 ^ 31"
  shows "(case findManyPage W key (to_double (to_double (1 - 1) * int (length rows)))
               (int (length rows)) rows of
            Inl e \<Rightarrow> Inl e
          | Inr items \<Rightarrow>
              Inr (items, \<lparr>pg_page = 1, pg_limit = int (length rows), pg_total = prisma_count W rows,
                           pg_pages = math_ceil_div (prisma_count W rows) (int (length rows))\<rparr>)) =
         Inr (findMany W key rows,
              \<lparr>pg_page = 1, pg_limit = int (length rows), pg_total = prisma_count W rows,
               pg_pages = math_ceil_div (prisma_count W rows) (int (length rows))\<rparr>)"
proof -
  from n have "int (length rows) < 2 ^ 31" by (metis of_nat_less_iff of_nat_numeral of_nat_power)
  then have "findManyPage W key 0 (int (length rows)) rows =
      Inr (take (nat (int (length rows))) (drop (nat 0) (findMany W key rows)))"
    by (intro findManyPage_window) simp_all
  moreover have "length (findMany W key rows) \<le> length rows"
    by (simp add: findMany_length)
  ultimately show ?thesis by (simp add: to_double_small)
qed

lemma page_items_within:
  assumes "(case findManyPage W key skip limit rows of
              Inl e \<Rightarrow> Inl e
            | Inr items \<Rightarrow> Inr (items, pgn)) = Inr (items, pg)"
  shows "set items \<subseteq> {r \<in> set rows. W r}"
proof -
  from assms have "findManyPage W key skip limit rows = Inr items"
    by (auto split: sum.splits)
  then show ?thesis by (rule findManyPage_within)
qed

text \<open>
  C10. For a row of a table with its unique columns whose \<open>expiresAt\<close> equals the
  call's \<open>now\<close>: the validity check of its token is false; the expired-sweep leaves
  the row in the table; the paginated listing filtered with \<open>isExpired = false\<close>
  counts it and returns it (on the page that holds the whole table, for a table of
  fewer than \<open>2^31\<close> rows, whose length the client takes as the limit); and no page of
  the listing filtered with \<open>isExpired = true\<close> contains it. The same for password
  reset tokens and refresh tokens.
\<close>

theorem boundary_instant:
  "(prt_wf prts \<and> p \<in> set prts \<and> prt_expiresAt p = now \<longrightarrow>
      isPasswordResetTokenValid now (prt_token p) prts = False \<and>
      p \<in> set (snd (deleteExpiredPasswordResetTokens now prts)) \<and>
      (length prts < 2 ^ 31 \<longrightarrow>
         (\<exists>items pg. getPasswordResetTokens now 1 (int (length prts)) (prt_expired_is False) prts =
            Inr (items, pg) \<and> p \<in> set items \<and>
            pg_total pg = length (filter (\<lambda>r. now \<le> prt_expiresAt r) prts))) \<and>
      (\<forall>page limit items pg.
          getPasswordResetTokens now page limit (prt_expired_is True) prts = Inr (items, pg) \<longrightarrow>
          p \<notin> set items)) \<and>
   (rt_wf rts \<and> q \<in> set rts \<and> rt_expiresAt q = now \<longrightarrow>
      isRefreshTokenValid now (rt_token q) rts = False \<and>
      q \<in> set (snd (deleteExpiredRefreshTokens now rts)) \<and>
      (length rts < 2 ^ 31 \<longrightarrow>
         (\<exists>items pg. getRefreshTokens now 1 (int (length rts)) (rt_expired_is False) rts =
            Inr (items, pg) \<and> q \<in> set items \<and>
            pg_total pg = length (filter (\<lambda>r. now \<le> rt_expiresAt r) rts))) \<and>
      (\<forall>page limit items pg.
          getRefreshTokens now page limit (rt_expired_is True) rts = Inr (items, pg) \<longrightarrow>
          q \<notin> set items))"
proof (intro conjI impI allI)
  assume a: "prt_wf prts \<and> p \<in> set prts \<and> prt_expiresAt p = now"
  then have "find (\<lambda>x. prt_token x = prt_token p) prts = Some p"
    by (simp add: prt_wf_def find_unique_key)
  with a show "isPasswordResetTokenValid now (prt_token p) prts = False"
    by (simp add: isPasswordResetTokenValid_def findUnique_def)
  from a show "p \<in> set (snd (deleteExpiredPasswordResetTokens now prts))"
    by (simp add: deleteExpiredPasswordResetTokens_def deleteMany_def)
next
  assume a: "prt_wf prts \<and> p \<in> set prts \<and> prt_expiresAt p = now"
    and n: "length prts < 2 ^ 31"
  from a have w: "prt_where now (prt_expired_is False) p" by (simp add: prt_where_def)
  have f: "filter (prt_where now (prt_expired_is False)) prts = filter (\<lambda>r. now \<le> prt_expiresAt r) prts"
    by (rule filter_cong) (simp_all add: prt_where_def)
  from n have "getPasswordResetTokens now 1 (int (length prts)) (prt_expired_is False) prts =
      Inr (findMany (prt_where now (prt_expired_is False)) prt_createdAt prts,
           \<lparr>pg_page = 1, pg_limit = int (length prts),
            pg_total = prisma_count (prt_where now (prt_expired_is False)) prts,
            pg_pages = math_ceil_div (prisma_count (prt_where now (prt_expired_is False)) prts)
              (int (length prts))\<rparr>)"
    unfolding getPasswordResetTokens_def Let_def by (rule first_page_of_all)
  moreover from a w have "p \<in> set (findMany (prt_where now (prt_expired_is False)) prt_createdAt prts)"
    by (simp add: findMany_set)
  ultimately show "\<exists>items pg. getPasswordResetTokens now 1 (int (length prts)) (prt_expired_is False) prts =
          Inr (items, pg) \<and> p \<in> set items \<and> pg_total pg = length (filter (\<lambda>r. now \<le> prt_expiresAt r) prts)"
    using f by (simp add: prisma_count_def)
next
  fix page limit items pg
  assume a: "prt_wf prts \<and> p \<in> set prts \<and> prt_expiresAt p = now"
    and g: "getPasswordResetTokens now page limit (prt_expired_is True) prts = Inr (items, pg)"
  from g have "set items \<subseteq> {r \<in> set prts. prt_where now (prt_expired_is True) r}"
    unfolding getPasswordResetTokens_def Let_def by (rule page_items_within)
  moreover from a have "\<not> prt_where now (prt_expired_is True) p" by (simp add: prt_where_def)
  ultimately show "p \<notin> set items" by auto
next
  assume a: "rt_wf rts \<and> q \<in> set rts \<and> rt_expiresAt q = now"
  then have "find (\<lambda>x. rt_token x = rt_token q) rts = Some q"
    by (simp add: rt_wf_def find_unique_key)
  with a show "isRefreshTokenValid now (rt_token q) rts = False"
    by (simp add: isRefreshTokenValid_def findUnique_def)
  from a show "q \<in> set (snd (deleteExpiredRefreshTokens now rts))"
    by (simp add: deleteExpiredRefreshTokens_def deleteMany_def)
next
  assume a: "rt_wf rts \<and> q \<in> set rts \<and> rt_expiresAt q = now"
    and n: "length rts < 2 ^ 31"
  from a have w: "rt_where now (rt_expired_is False) q" by (simp add: rt_where_def)
  have f: "filter (rt_where now (rt_expired_is False)) rts = filter (\<lambda>r. now \<le> rt_expiresAt r) rts"
    by (rule filter_cong) (simp_all add: rt_where_def)
  from n have "getRefreshTokens now 1 (int (length rts)) (rt_expired_is False) rts =
      Inr (findMany (rt_where now (rt_expired_is False)) rt_createdAt rts,
           \<lparr>pg_page = 1, pg_limit = int (length rts),
            pg_total = prisma_count (rt_where now (rt_expired_is False)) rts,
            pg_pages = math_ceil_div (prisma_count (rt_where now (rt_expired_is False)) rts)
              (int (length rts))\<rparr>)"
    unfolding getRefreshTokens_def Let_def by (rule first_page_of_all)
  moreover from a w have "q \<in> set (findMany (rt_where now (rt_expired_is False)) rt_createdAt rts)"
    by (simp add: findMany_set)
  ultimately show "\<exists>items pg. getRefreshTokens now 1 (int (length rts)) (rt_expired_is False) rts =
          Inr (items, pg) \<and> q \<in> set items \<and> pg_total pg = length (filter (\<lambda>r. now \<le> rt_expiresAt r) rts)"
    using f by (simp add: prisma_count_def)
next
  fix page limit items pg
  assume a: "rt_wf rts \<and> q \<in> set rts \<and> rt_expiresAt q = now"
    and g: "getRefreshTokens now page limit (rt_expired_is True) rts = Inr (items, pg)"
  from g have "set items \<subseteq> {r \<in> set rts. rt_where now (rt_expired_is True) r}"
    unfolding getRefreshTokens_def Let_def by (rule page_items_within)
  moreover from a have "\<not> rt_where now (rt_expired_is True) q" by (simp add: rt_where_def)
  ultimately show "q \<notin> set items" by auto
qed

theorem boundary_instant_witness:
  "isPasswordResetTokenValid 30 ''t3'' [prt_a, prt_b, prt_c] = False \<and>
   isPasswordResetTokenValid 29 ''t3'' [prt_a, prt_b, prt_c] = True \<and>
   deleteExpiredPasswordResetTokens 30 [prt_a, prt_b, prt_c] = (0, [prt_a, prt_b, prt_c]) \<and>
   getPasswordResetTokens 30 1 3 (prt_expired_is False) [prt_a, prt_b, prt_c] =
     Inr ([prt_b, prt_a, prt_c], \<lparr>pg_page = 1, pg_limit = 3, pg_total = 3, pg_pages = Num 1\<rparr>) \<and>
   getPasswordResetTokens 30 1 3 (prt_expired_is True) [prt_a, prt_b, prt_c] =
     Inr ([], \<lparr>pg_page = 1, pg_limit = 3, pg_total = 0, pg_pages = Num 0\<rparr>) \<and>
   isRefreshTokenValid 30 ''t3'' [rt_a, rt_b, rt_c] = False \<and>
   deleteExpiredRefreshTokens 30 [rt_a, rt_b, rt_c] = (0, [rt_a, rt_b, rt_c]) \<and>
   getRefreshTokens 30 1 3 (rt_expired_is False) [rt_a, rt_b, rt_c] =
     Inr ([rt_b, rt_a, rt_c], \<lparr>pg_page = 1, pg_limit = 3, pg_total = 3, pg_pages = Num 1\<rparr>)"
proof -
  have e: "isPasswordResetTokenValid 29 ''t3'' [prt_a, prt_b, prt_c] = True"
    "deleteExpiredPasswordResetTokens 30 [prt_a, prt_b, prt_c] = (0, [prt_a, prt_b, prt_c])"
    "getPasswordResetTokens 30 1 3 (prt_expired_is False) [prt_a, prt_b, prt_c] =
       Inr ([prt_b, prt_a, prt_c], \<lparr>pg_page = 1, pg_limit = 3, pg_total = 3, pg_pages = Num 1\<rparr>)"
    "getPasswordResetTokens 30 1 3 (prt_expired_is True) [prt_a, prt_b, prt_c] =
       Inr ([], \<lparr>pg_page = 1, pg_limit = 3, pg_total = 0, pg_pages = Num 0\<rparr>)"
    "deleteExpiredRefreshTokens 30 [rt_a, rt_b, rt_c] = (0, [rt_a, rt_b, rt_c])"
    "getRefreshTokens 30 1 3 (rt_expired_is False) [rt_a, rt_b, rt_c] =
       Inr ([rt_b, rt_a, rt_c], \<lparr>pg_page = 1, pg_limit = 3, pg_total = 3, pg_pages = Num 1\<rparr>)"
    by code_simp+
  have h: "prt_wf [prt_a, prt_b, prt_c] \<and> prt_c \<in> set [prt_a, prt_b, prt_c] \<and> prt_expiresAt prt_c = 30"
    "rt_wf [rt_a, rt_b, rt_c] \<and> rt_c \<in> set [rt_a, rt_b, rt_c] \<and> rt_expiresAt rt_c = 30"
    by (simp_all add: prt_wf_def rt_wf_def)
  from boundary_instant [where prts = "[prt_a, prt_b, prt_c]" and p = prt_c and now = 30
      and rts = "[rt_a, rt_b, rt_c]" and q = rt_c] h
  have "isPasswordResetTokenValid 30 (prt_token prt_c) [prt_a, prt_b, prt_c] = False"
    "isRefreshTokenValid 30 (rt_token rt_c) [rt_a, rt_b, rt_c] = False"
    by blast+
  with e show ?thesis by simp
qed

end
